theory Spec2Isabelle
  imports Complex_Main "HOL-Library.Word"
begin

section \<open>Exceptions, completions and event handlers\<close>

text \<open>
  The script is a set of classes whose methods mutate the document, the browser's
  storage and their own fields. Every method is modelled as a function from the state
  before the call to a completion: the exception the call raised, if any, paired with
  the state as the call left it. Statements executed before a \<open>throw\<close> keep
  their effect, as they do in JavaScript.

  Identifiers, attribute names and fixed messages are only ever compared for equality
  and are modelled as \<open>string\<close>; text typed by the user is a list of UTF-16 code units
  (section on the contact form).
\<close>

datatype js_error = TypeError | SyntaxError | Error

type_synonym 's completion = "js_error option \<times> 's"

definition and_then :: "'s completion \<Rightarrow> ('s \<Rightarrow> 's completion) \<Rightarrow> 's completion" where
  "and_then r f = (case r of (None, s) \<Rightarrow> f s | (Some e, s) \<Rightarrow> (Some e, s))"

text \<open>The callbacks the script registers with \<open>addEventListener\<close>, by the method they call.\<close>

datatype handler =
    ToggleTheme
  | HandleNavClick
  | ToggleMobileMenu
  | CloseMobileMenu
  | UpdateHeaderOnScroll
  | UpdateActiveLink
  | HandleSubmit
  | PolyfillAnchorClick

text \<open>A button: its attributes and the click listeners attached to it, in order.\<close>

record control =
  attributes :: "string \<rightharpoonup> string"
  click_listeners :: "handler list"

definition setAttribute :: "string \<Rightarrow> string \<Rightarrow> control \<Rightarrow> control" where
  "setAttribute n v el = el\<lparr>attributes := (attributes el)(n \<mapsto> v)\<rparr>"

definition addEventListener :: "handler \<Rightarrow> control \<Rightarrow> control" where
  "addEventListener h el = el\<lparr>click_listeners := click_listeners el @ [h]\<rparr>"

text \<open>\<open>setAttribute\<close> converts a boolean argument to its string.\<close>

definition string_of_bool :: "bool \<Rightarrow> string" where
  "string_of_bool b = (if b then ''true'' else ''false'')"

text \<open>\<open>a || d\<close> for a string-or-null \<open>a\<close>: null and the empty string are falsy.\<close>

definition or_else :: "string option \<Rightarrow> string \<Rightarrow> string" where
  "or_else a d = (case a of None \<Rightarrow> d | Some s \<Rightarrow> if s = [] then d else s)"

section \<open>ThemeManager\<close>

text \<open>
  The state a \<open>ThemeManager\<close> reads and writes: \<open>localStorage\<close>, the result of
  \<open>matchMedia("(prefers-color-scheme: dark)").matches\<close>, the attributes of
  \<open>document.documentElement\<close>, the element \<open>#theme-toggle\<close> (\<open>None\<close> when
  \<open>getElementById\<close> returns null) and the field \<open>this.theme\<close>, which the constructor
  assigns before anything reads it.
\<close>

record ThemeManager =
  localStorage :: "string \<rightharpoonup> string"
  prefers_dark :: bool
  documentElement :: "string \<rightharpoonup> string"
  themeToggle :: "control option"
  theme :: string

definition updateThemeToggle :: "ThemeManager \<Rightarrow> ThemeManager completion" where
  "updateThemeToggle tm =
     (let isPressed = (theme tm = ''dark'') in
      case themeToggle tm of
        None \<Rightarrow> (Some TypeError, tm)
      | Some el \<Rightarrow>
          (None, tm\<lparr>themeToggle := Some (setAttribute ''aria-pressed'' (string_of_bool isPressed) el)\<rparr>))"

definition applyTheme :: "string \<Rightarrow> ThemeManager \<Rightarrow> ThemeManager completion" where
  "applyTheme t tm =
     updateThemeToggle (tm\<lparr>documentElement := (documentElement tm)(''data-theme'' \<mapsto> t)\<rparr>)"

definition setTheme :: "string \<Rightarrow> ThemeManager \<Rightarrow> ThemeManager completion" where
  "setTheme t tm =
     and_then (applyTheme t (tm\<lparr>theme := t\<rparr>))
       (\<lambda>tm1. (None, tm1\<lparr>localStorage := (localStorage tm1)(''theme'' \<mapsto> t)\<rparr>))"

definition toggleTheme :: "ThemeManager \<Rightarrow> ThemeManager completion" where
  "toggleTheme tm =
     (let tm1 = tm\<lparr>theme := (if theme tm = ''light'' then ''dark'' else ''light'')\<rparr>
      in setTheme (theme tm1) tm1)"

definition ThemeManager_init :: "ThemeManager \<Rightarrow> ThemeManager completion" where
  "ThemeManager_init tm =
     and_then (applyTheme (theme tm) tm)
       (\<lambda>tm1. case themeToggle tm1 of
                None \<Rightarrow> (Some TypeError, tm1)
              | Some el \<Rightarrow>
                  (let tm2 = tm1\<lparr>themeToggle := Some (addEventListener ToggleTheme el)\<rparr> in
                   if theme tm2 = ''light'' \<and> prefers_dark tm2
                   then setTheme ''dark'' tm2
                   else (None, tm2)))"

definition ThemeManager_constructor :: "ThemeManager \<Rightarrow> ThemeManager completion" where
  "ThemeManager_constructor w =
     ThemeManager_init (w\<lparr>theme := or_else (localStorage w ''theme'') ''light''\<rparr>)"

text \<open>The user clicks the toggle \<open>n\<close> times; each click runs \<open>toggleTheme\<close>.\<close>

fun toggle_clicks :: "nat \<Rightarrow> ThemeManager \<Rightarrow> ThemeManager completion" where
  "toggle_clicks 0 tm = (None, tm)"
| "toggle_clicks (Suc n) tm = and_then (toggleTheme tm) (toggle_clicks n)"

text \<open>The value stored under \<open>"theme"\<close> is the value of the document's \<open>data-theme\<close>.\<close>

definition stored_is_applied :: "ThemeManager \<Rightarrow> bool" where
  "stored_is_applied tm =
     (case documentElement tm ''data-theme'' of
        None \<Rightarrow> False
      | Some t \<Rightarrow> localStorage tm ''theme'' = Some t)"

text \<open>A non-empty value is stored under \<open>"theme"\<close>.\<close>

definition has_stored_theme :: "ThemeManager \<Rightarrow> bool" where
  "has_stored_theme w = (case localStorage w ''theme'' of None \<Rightarrow> False | Some s \<Rightarrow> s \<noteq> [])"

text \<open>Two calls of \<open>toggleTheme\<close> in a row.\<close>

definition toggleTheme_twice :: "ThemeManager \<Rightarrow> ThemeManager completion" where
  "toggleTheme_twice tm = and_then (toggleTheme tm) toggleTheme"

text \<open>Concrete pages: a button with no attributes, and three visitors.\<close>

definition plain_button :: control where
  "plain_button = \<lparr>attributes = Map.empty, click_listeners = []\<rparr>"

definition first_visit_light_os :: ThemeManager where
  "first_visit_light_os =
     \<lparr>localStorage = Map.empty, prefers_dark = False, documentElement = Map.empty,
      themeToggle = Some plain_button, theme = ''''\<rparr>"

definition light_chooser_dark_os :: ThemeManager where
  "light_chooser_dark_os =
     \<lparr>localStorage = Map.empty(''theme'' \<mapsto> ''light''), prefers_dark = True,
      documentElement = Map.empty, themeToggle = Some plain_button, theme = ''''\<rparr>"

definition dark_chooser_light_os :: ThemeManager where
  "dark_chooser_light_os =
     \<lparr>localStorage = Map.empty(''theme'' \<mapsto> ''dark''), prefers_dark = False,
      documentElement = Map.empty, themeToggle = Some plain_button, theme = ''''\<rparr>"

section \<open>NavigationManager\<close>

text \<open>
  A \<open>classList\<close> is the list of an element's class tokens, without repetition:
  \<open>remove\<close> deletes the token, \<open>add\<close> appends it unless present, \<open>toggle\<close> does
  the one or the other.
\<close>

definition class_remove :: "string \<Rightarrow> string list \<Rightarrow> string list" where
  "class_remove c cs = removeAll c cs"

definition class_add :: "string \<Rightarrow> string list \<Rightarrow> string list" where
  "class_add c cs = (if c \<in> set cs then cs else cs @ [c])"

definition class_toggle :: "string \<Rightarrow> string list \<Rightarrow> string list" where
  "class_toggle c cs = (if c \<in> set cs then removeAll c cs else cs @ [c])"

text \<open>
  A navigation link (\<open>href\<close> is \<open>None\<close> when \<open>getAttribute("href")\<close> returns null),
  and the layout box of an element a link points to. Pixel quantities are real numbers;
  the rounding of double arithmetic is outside the model.
\<close>

record nav_link =
  href :: "string option"
  classList :: "string list"
  link_listeners :: "handler list"

record box =
  offsetTop :: real
  offsetHeight :: real

text \<open>
  The state a \<open>NavigationManager\<close> reads and writes. \<open>header\<close> and \<open>navMenu\<close> are
  the class lists of \<open>.header\<close> and \<open>.nav-links\<close> (\<open>None\<close> when \<open>querySelector\<close>
  returned null); \<open>getElementById\<close> and \<open>querySelector\<close> are the document's lookups
  (the latter raises \<open>SyntaxError\<close> on a string that is no selector);
  \<open>window_listeners\<close> are the scroll listeners; \<open>scrollIntoView_calls\<close> records the
  elements whose \<open>scrollIntoView\<close> was called.
\<close>

record NavigationManager =
  header :: "string list option"
  navLinks :: "nav_link list"
  mobileToggle :: "control option"
  navMenu :: "string list option"
  scrollY :: real
  getElementById :: "string \<Rightarrow> box option"
  querySelector :: "string \<Rightarrow> js_error + box option"
  window_listeners :: "handler list"
  scrollIntoView_calls :: "box list"

text \<open>
  \<open>forEach\<close> with a callback that mutates the element it is given and may throw: the
  elements before the throwing one keep their changes, the ones after it are not visited.
\<close>

fun forEach :: "('a \<Rightarrow> js_error option \<times> 'a) \<Rightarrow> 'a list \<Rightarrow> js_error option \<times> 'a list" where
  "forEach f [] = (None, [])"
| "forEach f (x # xs) =
     (case f x of
        (Some e, x') \<Rightarrow> (Some e, x' # xs)
      | (None, x') \<Rightarrow> (case forEach f xs of (r, xs') \<Rightarrow> (r, x' # xs')))"

text \<open>\<open>!href\<close>: null and the empty string are falsy.\<close>

definition falsy :: "string option \<Rightarrow> bool" where
  "falsy a = (a = None \<or> a = Some [])"

text \<open>The callback of the scroll branch of \<open>updateActiveLink\<close> (lines 100 to 112).\<close>

definition scroll_callback :: "(string \<Rightarrow> box option) \<Rightarrow> real \<Rightarrow> nav_link \<Rightarrow> js_error option \<times> nav_link" where
  "scroll_callback byId scrollPos link =
     (let link1 = link\<lparr>classList := class_remove ''active'' (classList link)\<rparr> in
      case href link1 of
        None \<Rightarrow> (Some TypeError, link1)
      | Some h \<Rightarrow>
          (let targetId = drop 1 h in
           case byId targetId of
             None \<Rightarrow> (None, link1)
           | Some targetSection \<Rightarrow>
               if scrollPos \<ge> offsetTop targetSection \<and>
                  scrollPos < offsetTop targetSection + offsetHeight targetSection
               then (None, link1\<lparr>classList := class_add ''active'' (classList link1)\<rparr>)
               else (None, link1)))"

text \<open>The callback of the other branch (lines 114 to 119).\<close>

definition href_callback :: "string option \<Rightarrow> nav_link \<Rightarrow> js_error option \<times> nav_link" where
  "href_callback a link =
     (let link1 = link\<lparr>classList := class_remove ''active'' (classList link)\<rparr> in
      if href link1 = a
      then (None, link1\<lparr>classList := class_add ''active'' (classList link1)\<rparr>)
      else (None, link1))"

text \<open>\<open>updateActiveLink(href = null)\<close>: the argument is \<open>None\<close> when omitted or null.\<close>

definition updateActiveLink :: "string option \<Rightarrow> NavigationManager \<Rightarrow> NavigationManager completion" where
  "updateActiveLink a nm =
     (if falsy a then
        (let scrollPos = scrollY nm + 100 in
         case forEach (scroll_callback (getElementById nm) scrollPos) (navLinks nm) of
           (r, ls) \<Rightarrow> (r, nm\<lparr>navLinks := ls\<rparr>))
      else
        (case forEach (href_callback a) (navLinks nm) of
           (r, ls) \<Rightarrow> (r, nm\<lparr>navLinks := ls\<rparr>)))"

text \<open>
  A click event on a navigation link. \<open>querySelector\<close> (like \<open>fetch\<close>) converts
  its argument to a string, so a null \<open>href\<close> is looked up as the selector \<open>null\<close>.
\<close>

record click_event =
  currentTarget :: nav_link
  defaultPrevented :: bool

definition string_of_nullable :: "string option \<Rightarrow> string" where
  "string_of_nullable a = (case a of None \<Rightarrow> ''null'' | Some s \<Rightarrow> s)"

definition handleNavClick ::
  "click_event \<Rightarrow> NavigationManager \<Rightarrow> (click_event \<times> NavigationManager) completion" where
  "handleNavClick e nm =
     (let e1 = e\<lparr>defaultPrevented := True\<rparr>;
          a = href (currentTarget e1)
      in case querySelector nm (string_of_nullable a) of
           Inl err \<Rightarrow> (Some err, (e1, nm))
         | Inr None \<Rightarrow> (None, (e1, nm))
         | Inr (Some target) \<Rightarrow>
             (let nm1 = nm\<lparr>scrollIntoView_calls := scrollIntoView_calls nm @ [target]\<rparr> in
              case updateActiveLink a nm1 of (r, nm2) \<Rightarrow> (r, (e1, nm2))))"

definition toggleMobileMenu :: "NavigationManager \<Rightarrow> NavigationManager completion" where
  "toggleMobileMenu nm =
     (case mobileToggle nm of
        None \<Rightarrow> (Some TypeError, nm)
      | Some el \<Rightarrow>
          (let isExpanded = (attributes el ''aria-expanded'' = Some ''true'');
               nm1 = nm\<lparr>mobileToggle :=
                        Some (setAttribute ''aria-expanded'' (string_of_bool (\<not> isExpanded)) el)\<rparr>
           in case navMenu nm1 of
                None \<Rightarrow> (Some TypeError, nm1)
              | Some cs \<Rightarrow> (None, nm1\<lparr>navMenu := Some (class_toggle ''mobile-open'' cs)\<rparr>)))"

definition closeMobileMenu :: "NavigationManager \<Rightarrow> NavigationManager completion" where
  "closeMobileMenu nm =
     (case mobileToggle nm of
        None \<Rightarrow> (Some TypeError, nm)
      | Some el \<Rightarrow>
          (let nm1 = nm\<lparr>mobileToggle := Some (setAttribute ''aria-expanded'' ''false'' el)\<rparr>
           in case navMenu nm1 of
                None \<Rightarrow> (Some TypeError, nm1)
              | Some cs \<Rightarrow> (None, nm1\<lparr>navMenu := Some (class_remove ''mobile-open'' cs)\<rparr>)))"

definition updateHeaderOnScroll :: "NavigationManager \<Rightarrow> NavigationManager completion" where
  "updateHeaderOnScroll nm =
     (case header nm of
        None \<Rightarrow> (Some TypeError, nm)
      | Some cs \<Rightarrow>
          if scrollY nm > 50
          then (None, nm\<lparr>header := Some (class_add ''scrolled'' cs)\<rparr>)
          else (None, nm\<lparr>header := Some (class_remove ''scrolled'' cs)\<rparr>))"

definition link_addEventListener :: "handler \<Rightarrow> nav_link \<Rightarrow> nav_link" where
  "link_addEventListener h link = link\<lparr>link_listeners := link_listeners link @ [h]\<rparr>"

definition NavigationManager_init :: "NavigationManager \<Rightarrow> NavigationManager completion" where
  "NavigationManager_init nm =
     (let nm1 = nm\<lparr>navLinks := map (link_addEventListener HandleNavClick) (navLinks nm)\<rparr> in
      case mobileToggle nm1 of
        None \<Rightarrow> (Some TypeError, nm1)
      | Some el \<Rightarrow>
          (let nm2 = nm1\<lparr>mobileToggle := Some (addEventListener ToggleMobileMenu el)\<rparr>;
               nm3 = nm2\<lparr>navLinks := map (link_addEventListener CloseMobileMenu) (navLinks nm2)\<rparr>;
               nm4 = nm3\<lparr>window_listeners := window_listeners nm3 @ [UpdateHeaderOnScroll]\<rparr>;
               nm5 = nm4\<lparr>window_listeners := window_listeners nm4 @ [UpdateActiveLink]\<rparr>
           in (None, nm5)))"

definition NavigationManager_constructor :: "NavigationManager \<Rightarrow> NavigationManager completion" where
  "NavigationManager_constructor w = NavigationManager_init w"

text \<open>A link carries the active class.\<close>

definition is_active :: "nav_link \<Rightarrow> bool" where
  "is_active link = (''active'' \<in> set (classList link))"

text \<open>
  The link's target exists and its range \<open>[offsetTop, offsetTop + offsetHeight)\<close>
  contains the probe point \<open>scrollY + 100\<close>.
\<close>

definition target_contains_probe :: "NavigationManager \<Rightarrow> nav_link \<Rightarrow> bool" where
  "target_contains_probe nm link =
     (case href link of
        None \<Rightarrow> False
      | Some h \<Rightarrow>
          (case getElementById nm (drop 1 h) of
             None \<Rightarrow> False
           | Some s \<Rightarrow> offsetTop s \<le> scrollY nm + 100 \<and> scrollY nm + 100 < offsetTop s + offsetHeight s))"

text \<open>Every navigation link has an \<open>href\<close> attribute.\<close>

definition links_have_href :: "NavigationManager \<Rightarrow> bool" where
  "links_have_href nm = list_all (\<lambda>l. href l \<noteq> None) (navLinks nm)"

text \<open>The click event the browser hands to the listeners of the \<open>i\<close>-th link.\<close>

definition click_on :: "nat \<Rightarrow> NavigationManager \<Rightarrow> click_event" where
  "click_on i nm = \<lparr>currentTarget = navLinks nm ! i, defaultPrevented = False\<rparr>"

text \<open>
  Concrete pages. In \<open>overlapping_page\<close> the sections \<open>about\<close> (0 to 600) and
  \<open>skills\<close> (500 to 900) overlap and the viewport is scrolled to 450, so the probe
  point 550 lies in both. In \<open>dangling_page\<close> the second link points to an element
  that does not exist.
\<close>

definition plain_link :: "string \<Rightarrow> nav_link" where
  "plain_link h = \<lparr>href = Some h, classList = [''nav-link''], link_listeners = []\<rparr>"

definition overlapping_page :: NavigationManager where
  "overlapping_page =
     \<lparr>header = Some [''header''],
      navLinks = [plain_link ''#about'', plain_link ''#skills'', plain_link ''#contact''],
      mobileToggle = Some plain_button,
      navMenu = Some [''nav-links''],
      scrollY = 450,
      getElementById = map_of
        [(''about'', \<lparr>offsetTop = 0, offsetHeight = 600\<rparr>),
         (''skills'', \<lparr>offsetTop = 500, offsetHeight = 400\<rparr>),
         (''contact'', \<lparr>offsetTop = 900, offsetHeight = 300\<rparr>)],
      querySelector = (\<lambda>s. Inr (map_of
        [(''#about'', \<lparr>offsetTop = 0, offsetHeight = 600\<rparr>),
         (''#skills'', \<lparr>offsetTop = 500, offsetHeight = 400\<rparr>),
         (''#contact'', \<lparr>offsetTop = 900, offsetHeight = 300\<rparr>)] s)),
      window_listeners = [],
      scrollIntoView_calls = []\<rparr>"

definition dangling_page :: NavigationManager where
  "dangling_page =
     \<lparr>header = Some [''header''],
      navLinks = [plain_link ''#about'', plain_link ''#blog''],
      mobileToggle = Some plain_button,
      navMenu = Some [''nav-links''],
      scrollY = 0,
      getElementById = map_of [(''about'', \<lparr>offsetTop = 0, offsetHeight = 600\<rparr>)],
      querySelector = (\<lambda>s. Inr (map_of [(''#about'', \<lparr>offsetTop = 0, offsetHeight = 600\<rparr>)] s)),
      window_listeners = [],
      scrollIntoView_calls = []\<rparr>"

section \<open>SkillAnimator and SectionAnimator\<close>

text \<open>
  An \<open>IntersectionObserverEntry\<close>, as far as the callbacks read it. The observer calls
  its callback with a batch of entries; between two calls the browser queues an entry
  each time the intersection state of an observed element changes, so one batch can
  hold several entries for the same element.
\<close>

record 'a entry =
  isIntersecting :: bool
  target :: 'a

text \<open>
  A skill bar: its inline \<open>style.width\<close> and the custom property \<open>--skill-width\<close>
  (\<open>None\<close> while unset).
\<close>

record skill_bar =
  style_width :: string
  skill_width :: "string option"

text \<open>
  The state a \<open>SkillAnimator\<close> reads and writes: the bars, the field \<open>hasAnimated\<close>,
  whether \<open>#skills\<close> exists, whether the observer observes it, and the timeouts
  scheduled so far (delay in milliseconds, index of the bar). \<open>animateSkills_calls\<close>
  counts the calls of \<open>animateSkills\<close>; the script has no such counter, the model
  keeps it to state how often the animation was started.
\<close>

record SkillAnimator =
  skillBars :: "skill_bar list"
  hasAnimated :: bool
  skillsSection :: bool
  skills_observed :: bool
  skill_timeouts :: "(nat \<times> nat) list"
  animateSkills_calls :: nat

definition animateSkills :: "SkillAnimator \<Rightarrow> SkillAnimator" where
  "animateSkills sa =
     sa\<lparr>skill_timeouts :=
          skill_timeouts sa @ map (\<lambda>index. (index * 100, index)) [0..<length (skillBars sa)],
        animateSkills_calls := Suc (animateSkills_calls sa)\<rparr>"

text \<open>
  The timeout callback of \<open>animateSkills\<close> for the bar at \<open>index\<close>.
  \<open>setProperty\<close> with the empty string removes the property.
\<close>

definition skill_timeout :: "nat \<Rightarrow> SkillAnimator \<Rightarrow> SkillAnimator" where
  "skill_timeout index sa =
     (if index < length (skillBars sa)
      then (let bar = skillBars sa ! index;
                width = style_width bar
            in sa\<lparr>skillBars := (skillBars sa)
                   [index := bar\<lparr>skill_width := (if width = [] then None else Some width)\<rparr>]\<rparr>)
      else sa)"

text \<open>
  The observer callback of \<open>SkillAnimator.init\<close>. The observer observes \<open>#skills\<close>
  only, so \<open>unobserve(entry.target)\<close> stops observing that element.
\<close>

definition skill_entry :: "unit entry \<Rightarrow> SkillAnimator \<Rightarrow> SkillAnimator" where
  "skill_entry en sa =
     (if isIntersecting en \<and> \<not> hasAnimated sa
      then (let sa1 = animateSkills sa;
                sa2 = sa1\<lparr>hasAnimated := True\<rparr>
            in sa2\<lparr>skills_observed := False\<rparr>)
      else sa)"

definition skill_observer_callback :: "unit entry list \<Rightarrow> SkillAnimator \<Rightarrow> SkillAnimator" where
  "skill_observer_callback entries sa = fold skill_entry entries sa"

text \<open>\<open>init\<close> creates the observer, which observes nothing yet, and observes \<open>#skills\<close> if it exists.\<close>

definition SkillAnimator_init :: "SkillAnimator \<Rightarrow> SkillAnimator" where
  "SkillAnimator_init sa =
     (let sa1 = sa\<lparr>skills_observed := False\<rparr> in
      if skillsSection sa1 then sa1\<lparr>skills_observed := True\<rparr> else sa1)"

definition SkillAnimator_constructor :: "SkillAnimator \<Rightarrow> SkillAnimator" where
  "SkillAnimator_constructor w = SkillAnimator_init (w\<lparr>hasAnimated := False\<rparr>)"

text \<open>
  The browser delivers a batch to the callback; it queues entries only for an element
  that is observed, so nothing arrives once \<open>#skills\<close> is unobserved.
\<close>

definition skill_deliver :: "unit entry list \<Rightarrow> SkillAnimator \<Rightarrow> SkillAnimator" where
  "skill_deliver entries sa = (if skills_observed sa then skill_observer_callback entries sa else sa)"

text \<open>
  A \<open>section\<close> element: its inline \<open>style.animation\<close> and whether the observer of
  \<open>SectionAnimator\<close> observes it. \<open>animation_log\<close> lists, in order, the index of the
  section on each assignment to \<open>style.animation\<close>; the script keeps no such log, the
  model keeps it to count the assignments.
\<close>

record section_el =
  style_animation :: string
  observed :: bool

record SectionAnimator =
  sections :: "section_el list"
  animation_log :: "nat list"

text \<open>The observer callback of \<open>SectionAnimator.init\<close>; an entry's target is the index of its section.\<close>

definition section_entry :: "nat entry \<Rightarrow> SectionAnimator \<Rightarrow> SectionAnimator" where
  "section_entry en sa =
     (if isIntersecting en
      then (let i = target en in
            sa\<lparr>sections := (sections sa)
                   [i := (sections sa ! i)\<lparr>style_animation := ''slideInUp 0.8s ease-out forwards'',
                                           observed := False\<rparr>],
               animation_log := animation_log sa @ [i]\<rparr>)
      else sa)"

definition section_observer_callback :: "nat entry list \<Rightarrow> SectionAnimator \<Rightarrow> SectionAnimator" where
  "section_observer_callback entries sa = fold section_entry entries sa"

definition SectionAnimator_init :: "SectionAnimator \<Rightarrow> SectionAnimator" where
  "SectionAnimator_init sa = sa\<lparr>sections := map (\<lambda>s. s\<lparr>observed := True\<rparr>) (sections sa)\<rparr>"

definition SectionAnimator_constructor :: "SectionAnimator \<Rightarrow> SectionAnimator" where
  "SectionAnimator_constructor w = SectionAnimator_init w"

text \<open>
  The browser delivers a batch: the entries it queued are those of sections of the page
  that were observed when the batch was put together, that is, before the callback runs.
\<close>

definition section_deliver :: "nat entry list \<Rightarrow> SectionAnimator \<Rightarrow> SectionAnimator" where
  "section_deliver entries sa =
     section_observer_callback
       (filter (\<lambda>en. target en < length (sections sa) \<and> observed (sections sa ! target en)) entries)
       sa"

text \<open>
  Some entry of the batches reports section \<open>i\<close> as intersecting; and: no batch holds
  two intersecting entries for the same section.
\<close>

definition intersected :: "nat \<Rightarrow> nat entry list list \<Rightarrow> bool" where
  "intersected i batches = list_ex (\<lambda>en. isIntersecting en \<and> target en = i) (concat batches)"

definition one_intersection_per_batch :: "nat entry list list \<Rightarrow> bool" where
  "one_intersection_per_batch batches =
     list_all (\<lambda>b. distinct (map target (filter isIntersecting b))) batches"

text \<open>
  Concrete pages: one section, and a skills section with two bars. \<open>in_out_in t\<close> is
  the batch queued for an element that enters the viewport, leaves it and enters it again
  before the callback runs.
\<close>

definition one_section :: SectionAnimator where
  "one_section = \<lparr>sections = [\<lparr>style_animation = '''', observed = False\<rparr>], animation_log = []\<rparr>"




definition two_bars :: SkillAnimator where
  "two_bars =
     \<lparr>skillBars = [\<lparr>style_width = ''90%'', skill_width = None\<rparr>,
                   \<lparr>style_width = ''75%'', skill_width = None\<rparr>],
      hasAnimated = False, skillsSection = True, skills_observed = False,
      skill_timeouts = [], animateSkills_calls = 0\<rparr>"

section \<open>FormHandler\<close>

subsection \<open>Text, trimming and the email pattern\<close>

text \<open>
  The text of a form field is a JavaScript string: a list of UTF-16 code units.
  \<open>utf16\<close> gives the code units of an ASCII literal.
\<close>

type_synonym code_unit = "16 word"

type_synonym js_text = "code_unit list"

definition utf16 :: "string \<Rightarrow> js_text" where
  "utf16 s = map of_char s"

definition at_sign :: code_unit where
  "at_sign = 0x40"

definition full_stop :: code_unit where
  "full_stop = 0x2E"

text \<open>
  The code units that \<open>String.prototype.trim\<close> strips and that \<open>\s\<close> matches: the
  WhiteSpace and LineTerminator code points of ECMAScript.
\<close>

definition isWhiteSpace :: "code_unit \<Rightarrow> bool" where
  "isWhiteSpace c =
     (c \<in> set [0x09, 0x0A, 0x0B, 0x0C, 0x0D, 0x20, 0xA0, 0x1680, 0x2028, 0x2029, 0x202F,
                0x205F, 0x3000, 0xFEFF]
      \<or> (0x2000 \<le> c \<and> c \<le> 0x200A))"

definition trim :: "js_text \<Rightarrow> js_text" where
  "trim s = rev (dropWhile isWhiteSpace (rev (dropWhile isWhiteSpace s)))"

text \<open>
  The regular expressions the script needs: a sequence of pieces between \<open>^\<close> and
  \<open>$\<close>, each piece an atom or an atom under \<open>+\<close>, each atom a literal character or
  a negated class \<open>[^...]\<close> of characters and \<open>\s\<close>.
\<close>

datatype class_item = Chr code_unit | WhiteSpaceEscape

datatype atom = Literal code_unit | NegatedClass "class_item list"

datatype piece = One atom | OneOrMore atom

fun item_matches :: "class_item \<Rightarrow> code_unit \<Rightarrow> bool" where
  "item_matches (Chr d) c = (c = d)"
| "item_matches WhiteSpaceEscape c = isWhiteSpace c"

fun atom_matches :: "atom \<Rightarrow> code_unit \<Rightarrow> bool" where
  "atom_matches (Literal d) c = (c = d)"
| "atom_matches (NegatedClass items) c = (\<not> list_ex (\<lambda>i. item_matches i c) items)"

text \<open>
  \<open>regex_test ps s\<close>: the pattern \<open>^ps$\<close> matches the string \<open>s\<close>. A piece under
  \<open>+\<close> takes one character and then either goes on or hands over to the rest of the
  pattern (backtracking).
\<close>

fun regex_test :: "piece list \<Rightarrow> js_text \<Rightarrow> bool" where
  "regex_test [] s = (s = [])"
| "regex_test (One a # ps) [] = False"
| "regex_test (One a # ps) (c # cs) = (atom_matches a c \<and> regex_test ps cs)"
| "regex_test (OneOrMore a # ps) [] = False"
| "regex_test (OneOrMore a # ps) (c # cs) =
     (atom_matches a c \<and> (regex_test (OneOrMore a # ps) cs \<or> regex_test ps cs))"

text \<open>\<open>/^[^\s@]+@[^\s@]+\.[^\s@]+$/\<close>\<close>

definition emailRegex :: "piece list" where
  "emailRegex =
     [OneOrMore (NegatedClass [WhiteSpaceEscape, Chr at_sign]),
      One (Literal at_sign),
      OneOrMore (NegatedClass [WhiteSpaceEscape, Chr at_sign]),
      One (Literal full_stop),
      OneOrMore (NegatedClass [WhiteSpaceEscape, Chr at_sign])]"

text \<open>
  The values \<open>validateForm\<close> computes with are strings and booleans; \<open>a && b\<close> is
  \<open>a\<close> when \<open>a\<close> is falsy and \<open>b\<close> otherwise.
\<close>

datatype js_value = Str js_text | Bool bool

fun truthy :: "js_value \<Rightarrow> bool" where
  "truthy (Str s) = (s \<noteq> [])"
| "truthy (Bool b) = b"

definition js_and :: "js_value \<Rightarrow> js_value \<Rightarrow> js_value" where
  "js_and a b = (if truthy a then b else a)"

subsection \<open>The form, the status element and the handler\<close>

text \<open>
  A text control of the form (its current value and the default value that
  \<open>form.reset()\<close> restores), the form (its \<open>action\<close> attribute, its named controls in
  document order, its submit listeners), the status element, and a request handed to
  \<open>fetch\<close>.
\<close>

record field_el =
  field_value :: js_text
  defaultValue :: js_text

record form_el =
  action :: "string option"
  controls :: "(string \<times> field_el) list"
  submit_listeners :: "handler list"

record status_el =
  textContent :: string
  className :: string

record request =
  url :: string
  http_method :: string
  body :: "(string \<times> js_text) list"
  headers :: "(string \<times> string) list"

text \<open>
  The state a \<open>FormHandler\<close> reads and writes: \<open>#contact-form\<close> and \<open>#form-status\<close>
  (\<open>None\<close> when absent), the time in milliseconds, the times at which the pending
  \<open>setTimeout\<close> callbacks of \<open>showStatus\<close> are due, and the requests issued.
\<close>

record FormHandler =
  form :: "form_el option"
  formStatus :: "status_el option"
  clock :: nat
  timeouts :: "nat list"
  fetches :: "request list"

text \<open>\<open>form.querySelector('[name="n"]')\<close>: the first control with that name.\<close>

definition field_named :: "string \<Rightarrow> form_el \<Rightarrow> field_el option" where
  "field_named n f = map_of (controls f) n"

definition validateForm :: "form_el \<Rightarrow> js_error + js_value" where
  "validateForm f =
     (case field_named ''name'' f of
        None \<Rightarrow> Inl TypeError
      | Some f1 \<Rightarrow>
     (case field_named ''email'' f of
        None \<Rightarrow> Inl TypeError
      | Some f2 \<Rightarrow>
     (case field_named ''subject'' f of
        None \<Rightarrow> Inl TypeError
      | Some f3 \<Rightarrow>
     (case field_named ''message'' f of
        None \<Rightarrow> Inl TypeError
      | Some f4 \<Rightarrow>
          (let name = trim (field_value f1);
               email = trim (field_value f2);
               subject = trim (field_value f3);
               message = trim (field_value f4)
           in Inr (js_and (js_and (js_and (js_and (Str name) (Str email))
                                          (Bool (regex_test emailRegex email)))
                                  (Str subject))
                          (Str message)))))))"

definition showStatus :: "string \<Rightarrow> string \<Rightarrow> FormHandler \<Rightarrow> FormHandler completion" where
  "showStatus message type fh =
     (case formStatus fh of
        None \<Rightarrow> (Some TypeError, fh)
      | Some st \<Rightarrow>
          (None, fh\<lparr>formStatus := Some (st\<lparr>textContent := message,
                                           className := ''form-status '' @ type\<rparr>),
                    timeouts := timeouts fh @ [clock fh + 5000]\<rparr>))"

text \<open>The callback \<open>showStatus\<close> hands to \<open>setTimeout\<close>.\<close>

definition status_timeout :: "FormHandler \<Rightarrow> FormHandler completion" where
  "status_timeout fh =
     (case formStatus fh of
        None \<Rightarrow> (Some TypeError, fh)
      | Some st \<Rightarrow> (None, fh\<lparr>formStatus := Some (st\<lparr>className := ''form-status''\<rparr>)\<rparr>))"

text \<open>\<open>new FormData(form)\<close>: the names and current values of the controls.\<close>

definition FormData :: "form_el \<Rightarrow> (string \<times> js_text) list" where
  "FormData f = map (\<lambda>(n, fd). (n, field_value fd)) (controls f)"

definition submitForm :: "FormHandler \<Rightarrow> FormHandler completion" where
  "submitForm fh =
     (case form fh of
        None \<Rightarrow> (Some TypeError, fh)
      | Some f \<Rightarrow>
          (let formData = FormData f in
           (None, fh\<lparr>fetches := fetches fh @
                     [\<lparr>url = string_of_nullable (action f), http_method = ''POST'',
                       body = formData, headers = [(''Accept'', ''application/json'')]\<rparr>]\<rparr>)))"

text \<open>\<open>form.reset()\<close>: every control returns to its default value.\<close>

definition reset :: "form_el \<Rightarrow> form_el" where
  "reset f = f\<lparr>controls := map (\<lambda>(n, fd). (n, fd\<lparr>field_value := defaultValue fd\<rparr>)) (controls f)\<rparr>"

definition success_message :: string where
  "success_message = ''Message sent successfully! I'' @ [CHR 0x27] @ ''ll get back to you soon.''"

definition failure_message :: string where
  "failure_message = ''Failed to send message. Please try again.''"

text \<open>
  The two callbacks of the promise chain of \<open>submitForm\<close>: \<open>then\<close> gets
  \<open>response.ok\<close>, \<open>catch\<close> runs when the request fails or \<open>then\<close> throws. An
  exception of \<open>catch\<close> itself is left as the outcome (an unhandled rejection).
\<close>

datatype fetch_outcome = Response bool | NetworkFailure

definition submit_then :: "bool \<Rightarrow> FormHandler \<Rightarrow> FormHandler completion" where
  "submit_then ok fh =
     (if ok then
        and_then (showStatus success_message ''success'' fh)
          (\<lambda>fh1. case form fh1 of
                   None \<Rightarrow> (Some TypeError, fh1)
                 | Some f \<Rightarrow> (None, fh1\<lparr>form := Some (reset f)\<rparr>))
      else (Some Error, fh))"

definition submit_catch :: "FormHandler \<Rightarrow> FormHandler completion" where
  "submit_catch fh = showStatus failure_message ''error'' fh"

definition fetch_settled :: "fetch_outcome \<Rightarrow> FormHandler \<Rightarrow> FormHandler completion" where
  "fetch_settled outcome fh =
     (case outcome of
        NetworkFailure \<Rightarrow> submit_catch fh
      | Response ok \<Rightarrow>
          (case submit_then ok fh of
             (None, fh1) \<Rightarrow> (None, fh1)
           | (Some e, fh1) \<Rightarrow> submit_catch fh1))"

record submit_event =
  submit_prevented :: bool

definition handleSubmit ::
  "submit_event \<Rightarrow> FormHandler \<Rightarrow> (submit_event \<times> FormHandler) completion" where
  "handleSubmit e fh =
     (let e1 = e\<lparr>submit_prevented := True\<rparr> in
      case form fh of
        None \<Rightarrow> (Some TypeError, (e1, fh))
      | Some f \<Rightarrow>
          (case validateForm f of
             Inl err \<Rightarrow> (Some err, (e1, fh))
           | Inr v \<Rightarrow>
               if \<not> truthy v
               then (case showStatus ''Please fill in all fields correctly'' ''error'' fh of
                       (r, fh1) \<Rightarrow> (r, (e1, fh1)))
               else (case submitForm fh of (r, fh1) \<Rightarrow> (r, (e1, fh1)))))"

definition FormHandler_init :: "FormHandler \<Rightarrow> FormHandler completion" where
  "FormHandler_init fh =
     (case form fh of
        None \<Rightarrow> (None, fh)
      | Some f \<Rightarrow> (None, fh\<lparr>form := Some (f\<lparr>submit_listeners := submit_listeners f @ [HandleSubmit]\<rparr>)\<rparr>))"

definition FormHandler_constructor :: "FormHandler \<Rightarrow> FormHandler completion" where
  "FormHandler_constructor w = FormHandler_init w"

text \<open>
  Time passes until \<open>t\<close> with no other event: the pending timeouts due by then run
  (an exception of a timeout callback is reported by the browser and stops nothing).
\<close>

definition run_timeouts :: "nat \<Rightarrow> FormHandler \<Rightarrow> FormHandler" where
  "run_timeouts t fh =
     fold (\<lambda>due s. snd (status_timeout s)) (filter (\<lambda>due. due \<le> t) (timeouts fh))
       (fh\<lparr>timeouts := filter (\<lambda>due. t < due) (timeouts fh), clock := max (clock fh) t\<rparr>)"

text \<open>
  The state after a submit event, and after the response to the request: the response
  arrives at time \<open>t\<close>, with no other event in between.
\<close>

definition after_submit :: "FormHandler \<Rightarrow> FormHandler" where
  "after_submit fh = snd (snd (handleSubmit \<lparr>submit_prevented = False\<rparr> fh))"

definition after_response :: "nat \<Rightarrow> fetch_outcome \<Rightarrow> FormHandler \<Rightarrow> FormHandler" where
  "after_response t outcome fh = snd (fetch_settled outcome (run_timeouts t (after_submit fh)))"

text \<open>The request \<open>submitForm\<close> issues for a form, and the message shown for an outcome.\<close>

definition post_request :: "form_el \<Rightarrow> request" where
  "post_request f =
     \<lparr>url = string_of_nullable (action f), http_method = ''POST'',
      body = FormData f, headers = [(''Accept'', ''application/json'')]\<rparr>"

definition shown_message :: "fetch_outcome \<Rightarrow> string" where
  "shown_message outcome = (if outcome = Response True then success_message else failure_message)"

text \<open>
  The shape of an email address in the words of the specification: no whitespace,
  exactly one \<open>@\<close>, and a full stop somewhere after it.
\<close>

definition stated_email_shape :: "js_text \<Rightarrow> bool" where
  "stated_email_shape s =
     (list_all (\<lambda>c. \<not> isWhiteSpace c) s \<and> count_list s at_sign = 1 \<and>
      full_stop \<in> set (dropWhile (\<lambda>c. c \<noteq> at_sign) s))"

text \<open>
  The shape the pattern accepts: \<open>local@domain.tld\<close> with all three parts non-empty
  and free of whitespace and \<open>@\<close>.
\<close>

definition address_char :: "code_unit \<Rightarrow> bool" where
  "address_char c = (\<not> isWhiteSpace c \<and> c \<noteq> at_sign)"

definition email_shape :: "js_text \<Rightarrow> bool" where
  "email_shape s =
     (\<exists>local domain tld.
        s = local @ [at_sign] @ domain @ [full_stop] @ tld \<and>
        local \<noteq> [] \<and> domain \<noteq> [] \<and> tld \<noteq> [] \<and>
        list_all address_char local \<and> list_all address_char domain \<and> list_all address_char tld)"

text \<open>The same form with every value replaced by its trimmed value.\<close>

definition trimmed :: "form_el \<Rightarrow> form_el" where
  "trimmed f = f\<lparr>controls := map (\<lambda>(n, fd). (n, fd\<lparr>field_value := trim (field_value fd)\<rparr>)) (controls f)\<rparr>"

text \<open>Concrete forms: a contact form with the four fields filled in, on a page with a status element.\<close>

definition text_field :: "string \<Rightarrow> field_el" where
  "text_field s = \<lparr>field_value = utf16 s, defaultValue = []\<rparr>"

definition contact_form :: "string \<Rightarrow> string \<Rightarrow> string \<Rightarrow> string \<Rightarrow> form_el" where
  "contact_form n e s m =
     \<lparr>action = Some ''https://formspree.io/f/contact'',
      controls = [(''name'', text_field n), (''email'', text_field e),
                (''subject'', text_field s), (''message'', text_field m)],
      submit_listeners = []\<rparr>"

text \<open>A valid form whose subject field is prefilled by the markup and was edited by the visitor.\<close>

definition prefilled_form :: form_el where
  "prefilled_form =
     \<lparr>action = Some ''https://formspree.io/f/contact'',
      controls = [(''name'', text_field ''A''), (''email'', text_field ''a@b.com''),
                  (''subject'', \<lparr>field_value = utf16 ''Hello there'', defaultValue = utf16 ''Hello''\<rparr>),
                  (''message'', text_field ''m'')],
      submit_listeners = []\<rparr>"

definition contact_page :: "form_el \<Rightarrow> FormHandler" where
  "contact_page f =
     \<lparr>form = Some f, formStatus = Some \<lparr>textContent = '''', className = ''form-status''\<rparr>,
      clock = 0, timeouts = [], fetches = []\<rparr>"

section \<open>SmoothScroll, LazyLoader and page initialisation\<close>

text \<open>
  \<open>SmoothScroll\<close>: whether the browser knows \<open>scrollBehavior\<close>, and the anchors
  \<open>a[href^="#"]\<close> with their click listeners.
\<close>

record anchor =
  anchor_href :: string
  anchor_listeners :: "handler list"

record SmoothScroll =
  supports_scrollBehavior :: bool
  anchors :: "anchor list"

definition SmoothScroll_polyfill :: "SmoothScroll \<Rightarrow> SmoothScroll" where
  "SmoothScroll_polyfill ss =
     ss\<lparr>anchors := map (\<lambda>a. a\<lparr>anchor_listeners := anchor_listeners a @ [PolyfillAnchorClick]\<rparr>)
                      (anchors ss)\<rparr>"

definition SmoothScroll_init :: "SmoothScroll \<Rightarrow> SmoothScroll" where
  "SmoothScroll_init ss = (if \<not> supports_scrollBehavior ss then SmoothScroll_polyfill ss else ss)"

definition SmoothScroll_constructor :: "SmoothScroll \<Rightarrow> SmoothScroll" where
  "SmoothScroll_constructor w = SmoothScroll_init w"

text \<open>
  \<open>LazyLoader\<close>: whether the browser knows the \<open>loading\<close> attribute, and the images
  \<open>img[loading='lazy']\<close> with that attribute and whether the polyfill's observer
  observes them.
\<close>

record image =
  loading :: "string option"
  image_observed :: bool

record LazyLoader =
  supports_loading :: bool
  lazy_images :: "image list"

definition LazyLoader_polyfill :: "LazyLoader \<Rightarrow> LazyLoader" where
  "LazyLoader_polyfill ll =
     ll\<lparr>lazy_images := map (\<lambda>img. img\<lparr>image_observed := True\<rparr>) (lazy_images ll)\<rparr>"

definition LazyLoader_init :: "LazyLoader \<Rightarrow> LazyLoader" where
  "LazyLoader_init ll =
     (if supports_loading ll
      then ll\<lparr>lazy_images := map (\<lambda>img. img\<lparr>loading := Some ''lazy''\<rparr>) (lazy_images ll)\<rparr>
      else LazyLoader_polyfill ll)"

definition LazyLoader_constructor :: "LazyLoader \<Rightarrow> LazyLoader" where
  "LazyLoader_constructor w = LazyLoader_init w"

text \<open>
  The page: the part of the document and the browser each controller works on, and the
  lines written to the console. The controllers touch disjoint parts, so the page is
  the tuple of them.
\<close>

record page =
  theme_part :: ThemeManager
  nav_part :: NavigationManager
  skill_part :: SkillAnimator
  section_part :: SectionAnimator
  form_part :: FormHandler
  smooth_part :: SmoothScroll
  lazy_part :: LazyLoader
  console :: "string list"

text \<open>
  The \<open>DOMContentLoaded\<close> listener (lines 365 to 376): the seven constructors in order,
  then the log line. An exception of a constructor ends the listener there.
\<close>

definition DOMContentLoaded :: "page \<Rightarrow> page completion" where
  "DOMContentLoaded p =
     (case ThemeManager_constructor (theme_part p) of
        (Some e, tm) \<Rightarrow> (Some e, p\<lparr>theme_part := tm\<rparr>)
      | (None, tm) \<Rightarrow>
     (let p1 = p\<lparr>theme_part := tm\<rparr> in
      case NavigationManager_constructor (nav_part p1) of
        (Some e, nm) \<Rightarrow> (Some e, p1\<lparr>nav_part := nm\<rparr>)
      | (None, nm) \<Rightarrow>
     (let p2 = p1\<lparr>nav_part := nm\<rparr>;
          p3 = p2\<lparr>skill_part := SkillAnimator_constructor (skill_part p2)\<rparr>;
          p4 = p3\<lparr>section_part := SectionAnimator_constructor (section_part p3)\<rparr>
      in case FormHandler_constructor (form_part p4) of
        (Some e, fh) \<Rightarrow> (Some e, p4\<lparr>form_part := fh\<rparr>)
      | (None, fh) \<Rightarrow>
     (let p5 = p4\<lparr>form_part := fh\<rparr>;
          p6 = p5\<lparr>smooth_part := SmoothScroll_constructor (smooth_part p5)\<rparr>;
          p7 = p6\<lparr>lazy_part := LazyLoader_constructor (lazy_part p6)\<rparr>
      in (None, p7\<lparr>console := console p7 @ [''Portfolio loaded successfully!'']\<rparr>)))))"

text \<open>
  A page with every expected element, and the same page without \<open>#theme-toggle\<close>,
  without \<open>#mobile-toggle\<close>, and without the five other elements the features look up.
\<close>

definition complete_page :: page where
  "complete_page =
     \<lparr>theme_part = first_visit_light_os,
      nav_part = overlapping_page,
      skill_part = two_bars,
      section_part = one_section,
      form_part = contact_page (contact_form '''' '''' '''' ''''),
      smooth_part = \<lparr>supports_scrollBehavior = True, anchors = []\<rparr>,
      lazy_part = \<lparr>supports_loading = True, lazy_images = []\<rparr>,
      console = []\<rparr>"

definition without_theme_toggle :: page where
  "without_theme_toggle =
     complete_page\<lparr>theme_part := (theme_part complete_page)\<lparr>themeToggle := None\<rparr>\<rparr>"

definition without_mobile_toggle :: page where
  "without_mobile_toggle =
     complete_page\<lparr>nav_part := (nav_part complete_page)\<lparr>mobileToggle := None\<rparr>\<rparr>"

definition without_optional_elements :: page where
  "without_optional_elements =
     complete_page
       \<lparr>nav_part := (nav_part complete_page)\<lparr>header := None, navMenu := None\<rparr>,
        skill_part := (skill_part complete_page)\<lparr>skillsSection := False\<rparr>,
        form_part := (form_part complete_page)\<lparr>form := None, formStatus := None\<rparr>\<rparr>"

section \<open>Properties of ThemeManager\<close>

lemma and_then_simps:
  "and_then (None, s) f = f s"
  "and_then (Some e, s) f = (Some e, s)"
  by (simp_all add: and_then_def)

lemmas theme_defs =
  updateThemeToggle_def applyTheme_def setTheme_def toggleTheme_def ThemeManager_init_def
  ThemeManager_constructor_def setAttribute_def addEventListener_def string_of_bool_def
  and_then_simps

lemma setTheme_ok:
  assumes "themeToggle tm = Some b"
  shows "fst (setTheme t tm) = None"
    and "theme (snd (setTheme t tm)) = t"
    and "documentElement (snd (setTheme t tm)) ''data-theme'' = Some t"
    and "localStorage (snd (setTheme t tm)) ''theme'' = Some t"
    and "themeToggle (snd (setTheme t tm)) = Some (setAttribute ''aria-pressed'' (string_of_bool (t = ''dark'')) b)"
    and "prefers_dark (snd (setTheme t tm)) = prefers_dark tm"
  using assms by (simp_all add: theme_defs)

lemma toggleTheme_ok:
  assumes "themeToggle tm = Some b"
  shows "fst (toggleTheme tm) = None"
    and "theme (snd (toggleTheme tm)) = (if theme tm = ''light'' then ''dark'' else ''light'')"
    and "documentElement (snd (toggleTheme tm)) ''data-theme'' = Some (theme (snd (toggleTheme tm)))"
    and "localStorage (snd (toggleTheme tm)) ''theme'' = Some (theme (snd (toggleTheme tm)))"
    and "themeToggle (snd (toggleTheme tm)) \<noteq> None"
  using assms by (simp_all add: toggleTheme_def Let_def setTheme_ok)

lemma constructor_ok:
  assumes "themeToggle w = Some b"
  shows "fst (ThemeManager_constructor w) = None"
    and "themeToggle (snd (ThemeManager_constructor w)) \<noteq> None"
    and "theme (snd (ThemeManager_constructor w)) =
           (if or_else (localStorage w ''theme'') ''light'' = ''light'' \<and> prefers_dark w
            then ''dark'' else or_else (localStorage w ''theme'') ''light'')"
    and "documentElement (snd (ThemeManager_constructor w)) ''data-theme'' =
           Some (theme (snd (ThemeManager_constructor w)))"
  using assms by (simp_all add: theme_defs Let_def)

lemma toggle_clicks_ok:
  assumes "themeToggle tm = Some b"
  shows "fst (toggle_clicks n tm) = None \<and>
         (stored_is_applied tm \<or> 0 < n \<longrightarrow> stored_is_applied (snd (toggle_clicks n tm)))"
  using assms
proof (induction n arbitrary: tm b)
  case 0
  then show ?case by simp
next
  case (Suc n)
  obtain b' where b': "themeToggle (snd (toggleTheme tm)) = Some b'"
    using toggleTheme_ok(5) [OF Suc.prems] by blast
  have step: "toggle_clicks (Suc n) tm = toggle_clicks n (snd (toggleTheme tm))"
    using toggleTheme_ok(1) [OF Suc.prems]
    by (cases "toggleTheme tm") (simp add: and_then_simps)
  have "stored_is_applied (snd (toggleTheme tm))"
    using toggleTheme_ok(3,4) [OF Suc.prems] by (simp add: stored_is_applied_def)
  with Suc.IH [OF b'] step show ?case by simp
qed

lemma constructor_stored_is_applied:
  assumes "themeToggle w = Some b"
  shows "stored_is_applied (snd (ThemeManager_constructor w)) \<longleftrightarrow>
           (has_stored_theme w \<or> prefers_dark w)"
  using assms
  by (auto simp add: theme_defs Let_def stored_is_applied_def has_stored_theme_def or_else_def
      split: option.splits if_splits)

subsection \<open>C1: the theme in effect after start-up\<close>

text \<open>
  C1 says that the theme in effect after \<open>init\<close> is the stored value whenever one is
  stored. The constructor reads the stored value into \<open>this.theme\<close> (with
  \<open>"light"\<close> as default) and \<open>init\<close> then tests only \<open>this.theme === "light"\<close>, so a
  stored \<open>"light"\<close> is treated like no stored value: with the OS reporting dark, the
  visitor who chose light gets \<open>"dark"\<close>, and the stored choice is overwritten.
\<close>

theorem stored_light_overridden_when_os_dark:
  "localStorage light_chooser_dark_os ''theme'' = Some ''light'' \<and>
   fst (ThemeManager_constructor light_chooser_dark_os) = None \<and>
   theme (snd (ThemeManager_constructor light_chooser_dark_os)) = ''dark'' \<and>
   documentElement (snd (ThemeManager_constructor light_chooser_dark_os)) ''data-theme'' = Some ''dark'' \<and>
   localStorage (snd (ThemeManager_constructor light_chooser_dark_os)) ''theme'' = Some ''dark''"
  by (simp add: light_chooser_dark_os_def plain_button_def theme_defs or_else_def Let_def)

subsection \<open>C7: the stored value and the applied theme\<close>

text \<open>
  C7 as stated (the stored value equals the applied theme at every point after
  initialisation) fails right after \<open>init\<close> on a first visit with a light OS:
  \<open>"light"\<close> is applied and nothing is stored.
\<close>

theorem nothing_stored_after_first_init:
  "fst (ThemeManager_constructor first_visit_light_os) = None \<and>
   documentElement (snd (ThemeManager_constructor first_visit_light_os)) ''data-theme'' = Some ''light'' \<and>
   localStorage (snd (ThemeManager_constructor first_visit_light_os)) ''theme'' = None"
  by (simp add: first_visit_light_os_def plain_button_def theme_defs or_else_def Let_def)

text \<open>
  C7, amended: when the toggle control exists, construction succeeds; right after it the
  stored value equals the applied theme exactly when a non-empty value was stored before
  or the OS reports dark; and after every toggle (one click or more) the stored value
  equals the applied theme.
\<close>

theorem stored_theme_tracks_applied_theme:
  assumes "themeToggle w = Some b"
  shows "fst (ThemeManager_constructor w) = None \<and>
         (stored_is_applied (snd (ThemeManager_constructor w)) \<longleftrightarrow>
            (has_stored_theme w \<or> prefers_dark w)) \<and>
         fst (toggle_clicks (Suc n) (snd (ThemeManager_constructor w))) = None \<and>
         stored_is_applied (snd (toggle_clicks (Suc n) (snd (ThemeManager_constructor w))))"
proof -
  obtain b' where "themeToggle (snd (ThemeManager_constructor w)) = Some b'"
    using constructor_ok(2) [OF assms] by blast
  from toggle_clicks_ok [OF this, of "Suc n"]
  show ?thesis
    using constructor_ok(1) [OF assms] constructor_stored_is_applied [OF assms] by simp
qed

theorem stored_theme_tracks_applied_theme_witness:
  "themeToggle dark_chooser_light_os = Some plain_button \<and>
   fst (ThemeManager_constructor dark_chooser_light_os) = None \<and>
   stored_is_applied (snd (ThemeManager_constructor dark_chooser_light_os)) \<and>
   has_stored_theme dark_chooser_light_os \<and>
   fst (toggle_clicks (Suc 2) (snd (ThemeManager_constructor dark_chooser_light_os))) = None \<and>
   stored_is_applied (snd (toggle_clicks (Suc 2) (snd (ThemeManager_constructor dark_chooser_light_os))))"
proof -
  have t: "themeToggle dark_chooser_light_os = Some plain_button"
    by (simp add: dark_chooser_light_os_def)
  have s: "has_stored_theme dark_chooser_light_os"
    by (simp add: dark_chooser_light_os_def has_stored_theme_def)
  show ?thesis
    using stored_theme_tracks_applied_theme [OF t, of 2] t s by simp
qed

subsection \<open>C9: toggling twice\<close>

text \<open>
  C9 as stated (two toggles restore the in-memory theme, the document attribute and the
  stored value) fails for the stored value on a first visit with a light OS: nothing is
  stored before the first toggle, \<open>"light"\<close> is stored after the second.
\<close>

theorem toggle_twice_changes_storage:
  "theme (snd (ThemeManager_constructor first_visit_light_os)) = ''light'' \<and>
   localStorage (snd (ThemeManager_constructor first_visit_light_os)) ''theme'' = None \<and>
   fst (toggleTheme_twice (snd (ThemeManager_constructor first_visit_light_os))) = None \<and>
   localStorage (snd (toggleTheme_twice (snd (ThemeManager_constructor first_visit_light_os)))) ''theme''
     = Some ''light''"
  by (simp add: first_visit_light_os_def plain_button_def theme_defs or_else_def Let_def
      toggleTheme_twice_def)

text \<open>
  C9, amended: with the toggle control present and the in-memory theme \<open>"light"\<close> or
  \<open>"dark"\<close>, two calls of \<open>toggleTheme\<close> succeed, return the in-memory theme to its
  value before the first call, and leave the document attribute and the stored value
  both equal to that theme. (The attribute and the stored value are therefore restored
  when they equalled the theme before; a stored value that was absent is not.)
\<close>

theorem toggleTheme_twice_restores_theme:
  assumes "themeToggle tm = Some b" and "theme tm = ''light'' \<or> theme tm = ''dark''"
  shows "fst (toggleTheme_twice tm) = None \<and>
         theme (snd (toggleTheme_twice tm)) = theme tm \<and>
         documentElement (snd (toggleTheme_twice tm)) ''data-theme'' = Some (theme tm) \<and>
         localStorage (snd (toggleTheme_twice tm)) ''theme'' = Some (theme tm)"
proof -
  obtain b' where b': "themeToggle (snd (toggleTheme tm)) = Some b'"
    using toggleTheme_ok(5) [OF assms(1)] by blast
  have twice: "toggleTheme_twice tm = toggleTheme (snd (toggleTheme tm))"
    using toggleTheme_ok(1) [OF assms(1)]
    by (cases "toggleTheme tm") (simp add: toggleTheme_twice_def and_then_simps)
  have same: "theme (snd (toggleTheme (snd (toggleTheme tm)))) = theme tm"
    using assms(2) by (auto simp add: toggleTheme_ok(2) [OF b'] toggleTheme_ok(2) [OF assms(1)])
  show ?thesis
    using toggleTheme_ok(1,3,4) [OF b'] same by (simp add: twice)
qed

theorem toggleTheme_twice_restores_theme_witness:
  "themeToggle (dark_chooser_light_os\<lparr>theme := ''dark''\<rparr>) = Some plain_button \<and>
   theme (dark_chooser_light_os\<lparr>theme := ''dark''\<rparr>) = ''dark'' \<and>
   fst (toggleTheme_twice (dark_chooser_light_os\<lparr>theme := ''dark''\<rparr>)) = None \<and>
   theme (snd (toggleTheme_twice (dark_chooser_light_os\<lparr>theme := ''dark''\<rparr>))) = ''dark'' \<and>
   documentElement (snd (toggleTheme_twice (dark_chooser_light_os\<lparr>theme := ''dark''\<rparr>))) ''data-theme''
     = Some ''dark'' \<and>
   localStorage (snd (toggleTheme_twice (dark_chooser_light_os\<lparr>theme := ''dark''\<rparr>))) ''theme''
     = Some ''dark''"
proof -
  have t: "themeToggle (dark_chooser_light_os\<lparr>theme := ''dark''\<rparr>) = Some plain_button"
    by (simp add: dark_chooser_light_os_def)
  have d: "theme (dark_chooser_light_os\<lparr>theme := ''dark''\<rparr>) = ''light'' \<or>
           theme (dark_chooser_light_os\<lparr>theme := ''dark''\<rparr>) = ''dark''"
    by simp
  show ?thesis
    using toggleTheme_twice_restores_theme [OF t d] t by simp
qed

section \<open>Properties of NavigationManager\<close>

lemma forEach_no_throw:
  assumes "\<And>x. x \<in> set xs \<Longrightarrow> fst (f x) = None"
  shows "forEach f xs = (None, map (\<lambda>x. snd (f x)) xs)"
  using assms
proof (induction xs)
  case Nil
  then show ?case by simp
next
  case (Cons x xs)
  have "fst (f x) = None" using Cons.prems by simp
  then obtain x' where fx: "f x = (None, x')" by (cases "f x") auto
  have "forEach f xs = (None, map (\<lambda>x. snd (f x)) xs)"
    using Cons.IH Cons.prems by simp
  with fx show ?case by simp
qed

lemma active_after_add: "''active'' \<in> set (class_add ''active'' cs)"
  by (simp add: class_add_def)

lemma active_after_remove: "''active'' \<notin> set (class_remove ''active'' cs)"
  by (simp add: class_remove_def)

lemma scroll_callback_no_throw:
  "href link \<noteq> None \<Longrightarrow> fst (scroll_callback byId p link) = None"
  by (auto simp add: scroll_callback_def Let_def split: option.splits)

lemma scroll_callback_active:
  "href link \<noteq> None \<Longrightarrow>
   is_active (snd (scroll_callback (getElementById nm) (scrollY nm + 100) link))
     \<longleftrightarrow> target_contains_probe nm link"
  by (auto simp add: scroll_callback_def target_contains_probe_def is_active_def Let_def
      active_after_add active_after_remove split: option.splits)

lemma href_callback_active:
  "is_active (snd (href_callback a link)) \<longleftrightarrow> href link = a"
  by (simp add: href_callback_def is_active_def Let_def active_after_add active_after_remove)

lemma updateActiveLink_scroll:
  assumes "\<forall>l \<in> set (navLinks nm). href l \<noteq> None"
  shows "updateActiveLink None nm =
           (None, nm\<lparr>navLinks := map (\<lambda>l. snd (scroll_callback (getElementById nm) (scrollY nm + 100) l)) (navLinks nm)\<rparr>)"
proof -
  have "forEach (scroll_callback (getElementById nm) (scrollY nm + 100)) (navLinks nm) =
        (None, map (\<lambda>l. snd (scroll_callback (getElementById nm) (scrollY nm + 100) l)) (navLinks nm))"
    using assms by (intro forEach_no_throw scroll_callback_no_throw) simp
  then show ?thesis by (simp add: updateActiveLink_def falsy_def Let_def)
qed

lemma updateActiveLink_href:
  assumes "h \<noteq> []"
  shows "updateActiveLink (Some h) nm =
           (None, nm\<lparr>navLinks := map (\<lambda>l. snd (href_callback (Some h) l)) (navLinks nm)\<rparr>)"
proof -
  have "forEach (href_callback (Some h)) (navLinks nm) =
        (None, map (\<lambda>l. snd (href_callback (Some h) l)) (navLinks nm))"
    by (intro forEach_no_throw) (simp add: href_callback_def Let_def)
  with assms show ?thesis by (simp add: updateActiveLink_def falsy_def)
qed

subsection \<open>C2: the active link on scroll\<close>

text \<open>
  C2 as stated ends with: if several sections' ranges contain the probe point, only the
  last matching link is active. The loop decides each link on its own, so with
  overlapping sections every matching link is active: here the first and the second.
\<close>

theorem overlapping_sections_both_active:
  "target_contains_probe overlapping_page (navLinks overlapping_page ! 0) \<and>
   target_contains_probe overlapping_page (navLinks overlapping_page ! 1) \<and>
   fst (updateActiveLink None overlapping_page) = None \<and>
   is_active (navLinks (snd (updateActiveLink None overlapping_page)) ! 0) \<and>
   is_active (navLinks (snd (updateActiveLink None overlapping_page)) ! 1)"
  by (simp add: overlapping_page_def plain_link_def target_contains_probe_def updateActiveLink_def
      falsy_def scroll_callback_def is_active_def class_add_def class_remove_def Let_def)

text \<open>
  C2, amended: when every link has an \<open>href\<close>, \<open>updateActiveLink()\<close> raises nothing,
  keeps the list of links, and afterwards a link carries the active class if and only
  if its target exists and its range contains the probe point \<open>scrollY + 100\<close>. So
  no link is active when no range contains the point, and every matching link is active
  when several do.
\<close>

theorem updateActiveLink_on_scroll:
  assumes "links_have_href nm"
  shows "fst (updateActiveLink None nm) = None \<and>
         length (navLinks (snd (updateActiveLink None nm))) = length (navLinks nm) \<and>
         (\<forall>i < length (navLinks nm).
            is_active (navLinks (snd (updateActiveLink None nm)) ! i)
              \<longleftrightarrow> target_contains_probe nm (navLinks nm ! i))"
proof -
  have h: "\<forall>l \<in> set (navLinks nm). href l \<noteq> None"
    using assms by (simp add: links_have_href_def list_all_iff)
  show ?thesis
    using h by (simp add: updateActiveLink_scroll [OF h] scroll_callback_active)
qed

theorem updateActiveLink_on_scroll_witness:
  "links_have_href overlapping_page \<and>
   is_active (navLinks (snd (updateActiveLink None overlapping_page)) ! 1) \<and>
   \<not> is_active (navLinks (snd (updateActiveLink None overlapping_page)) ! 2)"
proof -
  have h: "links_have_href overlapping_page"
    by (simp add: links_have_href_def overlapping_page_def plain_link_def)
  have t: "target_contains_probe overlapping_page (navLinks overlapping_page ! 1) \<and>
           \<not> target_contains_probe overlapping_page (navLinks overlapping_page ! 2) \<and>
           length (navLinks overlapping_page) = 3"
    by (simp add: overlapping_page_def plain_link_def target_contains_probe_def)
  show ?thesis
    using updateActiveLink_on_scroll [OF h] h t by simp
qed

subsection \<open>C6: the active link on click\<close>

text \<open>
  C6 as stated (every clicked link becomes active) fails for a link whose target does
  not exist: \<open>handleNavClick\<close> updates the active link only inside \<open>if (target)\<close>.
\<close>

theorem click_on_dangling_link_not_active:
  "href (navLinks dangling_page ! 1) = Some ''#blog'' \<and>
   fst (handleNavClick (click_on 1 dangling_page) dangling_page) = None \<and>
   defaultPrevented (fst (snd (handleNavClick (click_on 1 dangling_page) dangling_page))) \<and>
   \<not> is_active (navLinks (snd (snd (handleNavClick (click_on 1 dangling_page) dangling_page))) ! 1)"
  by (simp add: dangling_page_def plain_link_def handleNavClick_def click_on_def string_of_nullable_def
      is_active_def Let_def)

text \<open>
  C6, amended: a click on a link with a non-empty \<open>href\<close> that is a valid selector
  cancels the default navigation. If the selector finds an element, the links active
  afterwards are exactly those with the same \<open>href\<close>, whatever \<open>scrollY\<close> is; if
  it finds none, the active classes stay as they were.
\<close>

theorem handleNavClick_marks_link:
  assumes "i < length (navLinks nm)"
    and "href (navLinks nm ! i) = Some h"
    and "h \<noteq> []"
    and "querySelector nm h = Inr r"
  shows "fst (handleNavClick (click_on i nm) nm) = None \<and>
         defaultPrevented (fst (snd (handleNavClick (click_on i nm) nm))) \<and>
         length (navLinks (snd (snd (handleNavClick (click_on i nm) nm)))) = length (navLinks nm) \<and>
         (\<forall>j < length (navLinks nm).
            is_active (navLinks (snd (snd (handleNavClick (click_on i nm) nm))) ! j) \<longleftrightarrow>
              (if r = None then is_active (navLinks nm ! j) else href (navLinks nm ! j) = Some h)) \<and>
         navLinks (snd (snd (handleNavClick (click_on i (nm\<lparr>scrollY := y\<rparr>)) (nm\<lparr>scrollY := y\<rparr>))))
           = navLinks (snd (snd (handleNavClick (click_on i nm) nm)))"
proof (cases r)
  case None
  then show ?thesis
    using assms by (simp add: handleNavClick_def click_on_def string_of_nullable_def Let_def)
next
  case (Some target)
  then show ?thesis
    using assms
    by (simp add: handleNavClick_def click_on_def string_of_nullable_def Let_def
        updateActiveLink_href href_callback_active)
qed

theorem handleNavClick_marks_link_witness:
  "1 < length (navLinks overlapping_page) \<and>
   href (navLinks overlapping_page ! 1) = Some ''#skills'' \<and>
   querySelector overlapping_page ''#skills'' = Inr (Some \<lparr>offsetTop = 500, offsetHeight = 400\<rparr>) \<and>
   fst (handleNavClick (click_on 1 overlapping_page) overlapping_page) = None \<and>
   defaultPrevented (fst (snd (handleNavClick (click_on 1 overlapping_page) overlapping_page))) \<and>
   \<not> is_active (navLinks (snd (snd (handleNavClick (click_on 1 overlapping_page) overlapping_page))) ! 0) \<and>
   is_active (navLinks (snd (snd (handleNavClick (click_on 1 overlapping_page) overlapping_page))) ! 1) \<and>
   \<not> is_active (navLinks (snd (snd (handleNavClick (click_on 1 overlapping_page) overlapping_page))) ! 2)"
proof -
  have a: "1 < length (navLinks overlapping_page)"
    and b: "href (navLinks overlapping_page ! 1) = Some ''#skills''"
    and c: "''#skills'' \<noteq> []"
    and d: "querySelector overlapping_page ''#skills'' = Inr (Some \<lparr>offsetTop = 500, offsetHeight = 400\<rparr>)"
    by (simp_all add: overlapping_page_def plain_link_def)
  have l: "length (navLinks overlapping_page) = 3"
    and e: "href (navLinks overlapping_page ! 0) \<noteq> Some ''#skills''"
    and f: "href (navLinks overlapping_page ! 2) \<noteq> Some ''#skills''"
    by (simp_all add: overlapping_page_def plain_link_def)
  show ?thesis
    using handleNavClick_marks_link [OF a b c d] a b d l e f by simp
qed

section \<open>Properties of the animators\<close>

lemma skill_callback_effect:
  "animateSkills_calls (fold skill_entry es sa) =
     animateSkills_calls sa + (if \<not> hasAnimated sa \<and> list_ex isIntersecting es then 1 else 0) \<and>
   hasAnimated (fold skill_entry es sa) = (hasAnimated sa \<or> list_ex isIntersecting es) \<and>
   skills_observed (fold skill_entry es sa) =
     (skills_observed sa \<and> (hasAnimated sa \<or> \<not> list_ex isIntersecting es))"
proof (induction es arbitrary: sa)
  case Nil
  then show ?case by simp
next
  case (Cons e es)
  show ?case
    by (simp add: Cons.IH [of "skill_entry e sa"]) (auto simp add: skill_entry_def animateSkills_def Let_def)
qed

lemma skill_batches_effect:
  "animateSkills_calls (fold skill_deliver bs sa) =
     animateSkills_calls sa +
       (if skills_observed sa \<and> \<not> hasAnimated sa \<and> list_ex isIntersecting (concat bs) then 1 else 0)"
proof (induction bs arbitrary: sa)
  case Nil
  then show ?case by simp
next
  case (Cons b bs)
  show ?case
  proof (cases "skills_observed sa")
    case False
    then have "skill_deliver b sa = sa" by (simp add: skill_deliver_def)
    with False show ?thesis by (simp add: Cons.IH)
  next
    case True
    then have d: "skill_deliver b sa = fold skill_entry b sa"
      by (simp add: skill_deliver_def skill_observer_callback_def)
    show ?thesis
      using True skill_callback_effect [of b sa]
      by (simp add: Cons.IH d) 
  qed
qed

lemma skill_one_shot:
  "animateSkills_calls (fold skill_deliver bs (SkillAnimator_constructor w)) =
     animateSkills_calls w + (if skillsSection w \<and> list_ex isIntersecting (concat bs) then 1 else 0)"
  by (simp add: skill_batches_effect SkillAnimator_constructor_def SkillAnimator_init_def Let_def)

lemma section_callback_length:
  "length (sections (fold section_entry es sa)) = length (sections sa)"
  by (induction es arbitrary: sa) (simp_all add: section_entry_def Let_def)

lemma section_callback_count:
  "count_list (animation_log (fold section_entry es sa)) i =
     count_list (animation_log sa) i + length (filter (\<lambda>e. isIntersecting e \<and> target e = i) es)"
  by (induction es arbitrary: sa) (simp_all add: section_entry_def Let_def)

lemma section_callback_observed:
  "i < length (sections sa) \<Longrightarrow>
   observed (sections (fold section_entry es sa) ! i) =
     (observed (sections sa ! i) \<and> \<not> list_ex (\<lambda>e. isIntersecting e \<and> target e = i) es)"
proof (induction es arbitrary: sa)
  case Nil
  then show ?case by simp
next
  case (Cons e es)
  have len: "i < length (sections (section_entry e sa))"
    using Cons.prems by (simp add: section_entry_def Let_def)
  have step: "observed (sections (section_entry e sa) ! i) =
          (observed (sections sa ! i) \<and> \<not> (isIntersecting e \<and> target e = i))"
  proof (cases "target e < length (sections sa)")
    case True
    then show ?thesis
      using Cons.prems by (auto simp add: section_entry_def Let_def nth_list_update)
  next
    case False
    then show ?thesis
      using Cons.prems by (auto simp add: section_entry_def Let_def list_update_beyond)
  qed
  show ?case
    by (auto simp add: Cons.IH [OF len] step)
qed

lemma at_most_one_with_key:
  "distinct (map f xs) \<Longrightarrow>
   length (filter (\<lambda>x. f x = a) xs) = (if list_ex (\<lambda>x. f x = a) xs then 1 else 0)"
proof (induction xs)
  case Nil
  then show ?case by simp
next
  case (Cons x xs)
  show ?case
  proof (cases "f x = a")
    case True
    then have "a \<notin> f ` set xs" using Cons.prems by auto
    then have "filter (\<lambda>x. f x = a) xs = []" by (auto simp add: filter_empty_conv)
    with True show ?thesis by simp
  next
    case False
    then show ?thesis using Cons by simp
  qed
qed

lemma intersecting_count:
  assumes "distinct (map target (filter isIntersecting b))"
  shows "length (filter (\<lambda>e. isIntersecting e \<and> target e = i) b) =
           (if list_ex (\<lambda>e. isIntersecting e \<and> target e = i) b then 1 else 0)"
proof -
  have "filter (\<lambda>e. isIntersecting e \<and> target e = i) b =
        filter (\<lambda>e. target e = i) (filter isIntersecting b)"
    by (simp add: conj_commute)
  moreover have "list_ex (\<lambda>e. isIntersecting e \<and> target e = i) b =
                 list_ex (\<lambda>e. target e = i) (filter isIntersecting b)"
    by (auto simp add: list_ex_iff)
  ultimately show ?thesis
    using at_most_one_with_key [OF assms, of i] by simp
qed

lemma section_deliver_effect:
  assumes "distinct (map target (filter isIntersecting b))" and "i < length (sections sa)"
  shows "count_list (animation_log (section_deliver b sa)) i =
           count_list (animation_log sa) i +
             (if observed (sections sa ! i) \<and> list_ex (\<lambda>e. isIntersecting e \<and> target e = i) b
              then 1 else 0)"
    and "observed (sections (section_deliver b sa) ! i) =
           (observed (sections sa ! i) \<and> \<not> list_ex (\<lambda>e. isIntersecting e \<and> target e = i) b)"
    and "length (sections (section_deliver b sa)) = length (sections sa)"
proof -
  let ?P = "\<lambda>en. target en < length (sections sa) \<and> observed (sections sa ! target en)"
  have sel: "filter (\<lambda>e. isIntersecting e \<and> target e = i) (filter ?P b) =
             (if observed (sections sa ! i) then filter (\<lambda>e. isIntersecting e \<and> target e = i) b else [])"
    using assms(2) by (induction b) auto
  have "count_list (animation_log (section_deliver b sa)) i =
          count_list (animation_log sa) i +
            length (filter (\<lambda>e. isIntersecting e \<and> target e = i) (filter ?P b))"
    unfolding section_deliver_def section_observer_callback_def
    by (rule section_callback_count)
  also have "length (filter (\<lambda>e. isIntersecting e \<and> target e = i) (filter ?P b)) =
          (if observed (sections sa ! i) \<and> list_ex (\<lambda>e. isIntersecting e \<and> target e = i) b
           then 1 else 0)"
    unfolding sel using intersecting_count [OF assms(1), of i] by auto
  finally show "count_list (animation_log (section_deliver b sa)) i =
           count_list (animation_log sa) i +
             (if observed (sections sa ! i) \<and> list_ex (\<lambda>e. isIntersecting e \<and> target e = i) b
              then 1 else 0)" .
  have ex: "list_ex (\<lambda>e. isIntersecting e \<and> target e = i) (filter ?P b) =
            (observed (sections sa ! i) \<and> list_ex (\<lambda>e. isIntersecting e \<and> target e = i) b)"
    using assms(2) by (auto simp add: list_ex_iff)
  have "observed (sections (section_deliver b sa) ! i) =
          (observed (sections sa ! i) \<and>
           \<not> list_ex (\<lambda>e. isIntersecting e \<and> target e = i) (filter ?P b))"
    unfolding section_deliver_def section_observer_callback_def
    by (rule section_callback_observed [OF assms(2)])
  then show "observed (sections (section_deliver b sa) ! i) =
           (observed (sections sa ! i) \<and> \<not> list_ex (\<lambda>e. isIntersecting e \<and> target e = i) b)"
    unfolding ex by blast
  show "length (sections (section_deliver b sa)) = length (sections sa)"
    by (simp add: section_deliver_def section_observer_callback_def section_callback_length)
qed

lemma section_batches_effect:
  assumes "one_intersection_per_batch bs" and "i < length (sections sa)"
  shows "count_list (animation_log (fold section_deliver bs sa)) i =
           count_list (animation_log sa) i +
             (if observed (sections sa ! i) \<and> intersected i bs then 1 else 0)"
  using assms
proof (induction bs arbitrary: sa)
  case Nil
  then show ?case by (simp add: intersected_def)
next
  case (Cons b bs)
  have d: "distinct (map target (filter isIntersecting b))"
    and rest: "one_intersection_per_batch bs"
    using Cons.prems(1) by (simp_all add: one_intersection_per_batch_def)
  have len: "i < length (sections (section_deliver b sa))"
    using Cons.prems(2) section_deliver_effect(3) [OF d Cons.prems(2)] by simp
  have split: "intersected i (b # bs) =
          (list_ex (\<lambda>e. isIntersecting e \<and> target e = i) b \<or> intersected i bs)"
    by (auto simp add: intersected_def list_ex_iff)
  show ?case
    using Cons.IH [OF rest len] section_deliver_effect(1,2) [OF d Cons.prems(2)]
    by (simp add: split)
qed

text \<open>
  Where the one-shot holds. \<open>SkillAnimator\<close>: whatever batches are delivered,
  \<open>animateSkills\<close> is called exactly once if \<open>#skills\<close> exists and some delivered
  entry is intersecting, and never otherwise. \<open>SectionAnimator\<close>: as long as no batch
  holds two intersecting entries of the same section, \<open>style.animation\<close> of a section
  is assigned exactly once if some delivered entry reports that section intersecting,
  and never otherwise.
\<close>

lemma one_shot_across_batches:
  assumes "one_intersection_per_batch batches"
  shows "animateSkills_calls (fold skill_deliver skill_batches (SkillAnimator_constructor w)) =
           animateSkills_calls w +
             (if skillsSection w \<and> list_ex isIntersecting (concat skill_batches) then 1 else 0) \<and>
         (\<forall>i < length (sections v).
            count_list (animation_log (fold section_deliver batches (SectionAnimator_constructor v))) i =
              count_list (animation_log v) i + (if intersected i batches then 1 else 0))"
proof -
  have "count_list (animation_log (fold section_deliver batches (SectionAnimator_constructor v))) i =
          count_list (animation_log v) i + (if intersected i batches then 1 else 0)"
    if "i < length (sections v)" for i
  proof -
    have len: "i < length (sections (SectionAnimator_constructor v))"
      using that by (simp add: SectionAnimator_constructor_def SectionAnimator_init_def)
    show ?thesis
      using section_batches_effect [OF assms len] that
      by (simp add: SectionAnimator_constructor_def SectionAnimator_init_def)
  qed
  then show ?thesis by (simp add: skill_one_shot)
qed


subsection \<open>C8: one-shot reveal\<close>


section \<open>Properties of FormHandler\<close>

lemma address_atom:
  "atom_matches (NegatedClass [WhiteSpaceEscape, Chr at_sign]) c = address_char c"
  by (simp add: address_char_def)

lemma regex_one:
  "regex_test (One a # ps) s \<longleftrightarrow> (\<exists>c q. s = c # q \<and> atom_matches a c \<and> regex_test ps q)"
  by (cases s) auto

lemma regex_one_or_more:
  "regex_test (OneOrMore a # ps) s \<longleftrightarrow>
     (\<exists>p q. s = p @ q \<and> p \<noteq> [] \<and> list_all (atom_matches a) p \<and> regex_test ps q)"
proof (induction s)
  case Nil
  then show ?case by simp
next
  case (Cons c cs)
  show ?case
  proof
    assume "regex_test (OneOrMore a # ps) (c # cs)"
    then have c: "atom_matches a c"
      and more: "regex_test (OneOrMore a # ps) cs \<or> regex_test ps cs"
      by simp_all
    from more show "\<exists>p q. c # cs = p @ q \<and> p \<noteq> [] \<and> list_all (atom_matches a) p \<and> regex_test ps q"
    proof
      assume "regex_test (OneOrMore a # ps) cs"
      then obtain p q where "cs = p @ q" "list_all (atom_matches a) p" "regex_test ps q"
        using Cons.IH by blast
      with c have "c # cs = (c # p) @ q \<and> c # p \<noteq> [] \<and> list_all (atom_matches a) (c # p) \<and> regex_test ps q"
        by simp
      then show ?thesis by blast
    next
      assume "regex_test ps cs"
      with c have "c # cs = [c] @ cs \<and> [c] \<noteq> [] \<and> list_all (atom_matches a) [c] \<and> regex_test ps cs"
        by simp
      then show ?thesis by blast
    qed
  next
    assume "\<exists>p q. c # cs = p @ q \<and> p \<noteq> [] \<and> list_all (atom_matches a) p \<and> regex_test ps q"
    then obtain p q where pq: "c # cs = p @ q" "p \<noteq> []" "list_all (atom_matches a) p" "regex_test ps q"
      by blast
    then obtain p' where p': "p = c # p'" "cs = p' @ q"
      by (cases p) auto
    show "regex_test (OneOrMore a # ps) (c # cs)"
    proof (cases "p' = []")
      case True
      with pq p' show ?thesis by simp
    next
      case False
      with pq p' have "regex_test (OneOrMore a # ps) cs"
        using Cons.IH by auto
      with pq p' show ?thesis by simp
    qed
  qed
qed

lemma regex_last:
  "regex_test [OneOrMore a] s \<longleftrightarrow> s \<noteq> [] \<and> list_all (atom_matches a) s"
  by (auto simp add: regex_one_or_more)

lemma emailRegex_shape: "regex_test emailRegex s \<longleftrightarrow> email_shape s"
proof
  assume "regex_test emailRegex s"
  then obtain l q1 where 1: "s = l @ q1" "l \<noteq> []" "list_all address_char l"
    and r1: "regex_test [One (Literal at_sign), OneOrMore (NegatedClass [WhiteSpaceEscape, Chr at_sign]),
                One (Literal full_stop), OneOrMore (NegatedClass [WhiteSpaceEscape, Chr at_sign])] q1"
    unfolding emailRegex_def regex_one_or_more [of _ "One (Literal at_sign) # _"] address_atom [abs_def]
    by blast
  from r1 obtain q2 where 2: "q1 = at_sign # q2"
    and r2: "regex_test [OneOrMore (NegatedClass [WhiteSpaceEscape, Chr at_sign]),
                One (Literal full_stop), OneOrMore (NegatedClass [WhiteSpaceEscape, Chr at_sign])] q2"
    unfolding regex_one by auto
  from r2 obtain d q3 where 3: "q2 = d @ q3" "d \<noteq> []" "list_all address_char d"
    and r3: "regex_test [One (Literal full_stop), OneOrMore (NegatedClass [WhiteSpaceEscape, Chr at_sign])] q3"
    unfolding regex_one_or_more [of _ "One (Literal full_stop) # _"] address_atom [abs_def]
    by blast
  from r3 obtain t where 4: "q3 = full_stop # t"
    and r4: "regex_test [OneOrMore (NegatedClass [WhiteSpaceEscape, Chr at_sign])] t"
    unfolding regex_one by auto
  from r4 have 5: "t \<noteq> []" "list_all address_char t"
    unfolding regex_last address_atom [abs_def] by simp_all
  have "s = l @ [at_sign] @ d @ [full_stop] @ t"
    using 1 2 3 4 by simp
  with 1 3 5 show "email_shape s"
    unfolding email_shape_def by blast
next
  assume "email_shape s"
  then obtain l d t where s: "s = l @ [at_sign] @ d @ [full_stop] @ t"
    and ne: "l \<noteq> []" "d \<noteq> []" "t \<noteq> []"
    and ok: "list_all address_char l" "list_all address_char d" "list_all address_char t"
    unfolding email_shape_def by blast
  have 4: "regex_test [OneOrMore (NegatedClass [WhiteSpaceEscape, Chr at_sign])] t"
    unfolding regex_last address_atom [abs_def] using ne ok by simp
  have 3: "regex_test [One (Literal full_stop), OneOrMore (NegatedClass [WhiteSpaceEscape, Chr at_sign])]
             (full_stop # t)"
    using 4 by simp
  have 2: "regex_test [OneOrMore (NegatedClass [WhiteSpaceEscape, Chr at_sign]),
             One (Literal full_stop), OneOrMore (NegatedClass [WhiteSpaceEscape, Chr at_sign])]
             (d @ full_stop # t)"
    unfolding regex_one_or_more [of _ "One (Literal full_stop) # _"] address_atom [abs_def]
    using 3 ne ok by blast
  have 1: "regex_test [One (Literal at_sign), OneOrMore (NegatedClass [WhiteSpaceEscape, Chr at_sign]),
             One (Literal full_stop), OneOrMore (NegatedClass [WhiteSpaceEscape, Chr at_sign])]
             (at_sign # d @ full_stop # t)"
    using 2 by simp
  have "regex_test emailRegex (l @ at_sign # d @ full_stop # t)"
    unfolding emailRegex_def regex_one_or_more [of _ "One (Literal at_sign) # _"] address_atom [abs_def]
    using 1 ne ok by blast
  then show "regex_test emailRegex s" using s by simp
qed

lemma validateForm_value:
  assumes "field_named ''name'' f = Some n" and "field_named ''email'' f = Some e"
    and "field_named ''subject'' f = Some s" and "field_named ''message'' f = Some m"
  shows "\<exists>v. validateForm f = Inr v \<and>
           (truthy v \<longleftrightarrow>
              trim (field_value n) \<noteq> [] \<and> trim (field_value e) \<noteq> [] \<and>
              regex_test emailRegex (trim (field_value e)) \<and>
              trim (field_value s) \<noteq> [] \<and> trim (field_value m) \<noteq> [])"
  using assms by (simp add: validateForm_def js_and_def Let_def)

lemma dropWhile_trimmed:
  "dropWhile P (rev (dropWhile P (rev (dropWhile P s)))) = rev (dropWhile P (rev (dropWhile P s)))"
proof (cases "dropWhile P s")
  case Nil
  show ?thesis unfolding Nil by simp
next
  case (Cons x u)
  have "\<not> P x"
    using Cons hd_dropWhile [of P s] by auto
  then have "dropWhile P (rev (x # u)) = dropWhile P (rev u) @ [x] \<or>
             dropWhile P (rev (x # u)) = [x]"
    by (simp add: dropWhile_append)
  then obtain w where "dropWhile P (rev (x # u)) = w @ [x]"
    by auto
  then have "rev (dropWhile P (rev (x # u))) = x # rev w"
    by simp
  with \<open>\<not> P x\<close> show ?thesis
    unfolding Cons by simp
qed

lemma trim_trim: "trim (trim s) = trim s"
proof -
  have "dropWhile isWhiteSpace (trim s) = trim s"
    unfolding trim_def by (rule dropWhile_trimmed)
  then have "trim (trim s) = rev (dropWhile isWhiteSpace (rev (trim s)))"
    by (simp add: trim_def)
  also have "\<dots> = trim s"
    by (simp add: trim_def)
  finally show ?thesis .
qed

lemma field_named_trimmed:
  "field_named n (trimmed f) =
     map_option (\<lambda>fd. fd\<lparr>field_value := trim (field_value fd)\<rparr>) (field_named n f)"
proof -
  have "map_of (map (\<lambda>(k, fd). (k, fd\<lparr>field_value := trim (field_value fd)\<rparr>)) xs) n =
        map_option (\<lambda>fd. fd\<lparr>field_value := trim (field_value fd)\<rparr>) (map_of xs n)" for xs
    by (induction xs) auto
  then show ?thesis by (simp add: field_named_def trimmed_def)
qed

lemma validateForm_trimmed: "validateForm (trimmed f) = validateForm f"
  by (simp add: validateForm_def field_named_trimmed trim_trim split: option.splits)

lemma handleSubmit_form: "form (snd (snd (handleSubmit e fh))) = form fh"
  by (simp add: handleSubmit_def showStatus_def submitForm_def Let_def
      split: option.splits sum.splits)

lemma handleSubmit_valid:
  assumes "form fh = Some f" and "validateForm f = Inr v" and "truthy v"
  shows "handleSubmit e fh =
           (None, (e\<lparr>submit_prevented := True\<rparr>,
                   fh\<lparr>fetches := fetches fh @
                        [\<lparr>url = string_of_nullable (action f), http_method = ''POST'',
                          body = FormData f, headers = [(''Accept'', ''application/json'')]\<rparr>]\<rparr>))"
  using assms by (simp add: handleSubmit_def submitForm_def Let_def)

lemma status_timeout_snd:
  "snd (status_timeout fh) =
     fh\<lparr>formStatus := map_option (\<lambda>st. st\<lparr>className := ''form-status''\<rparr>) (formStatus fh)\<rparr>"
  by (cases "formStatus fh") (simp_all add: status_timeout_def)

lemma timeouts_fold:
  "fold (\<lambda>due s. snd (status_timeout s)) ds fh =
     (if ds = [] then fh
      else fh\<lparr>formStatus := map_option (\<lambda>st. st\<lparr>className := ''form-status''\<rparr>) (formStatus fh)\<rparr>)"
proof (induction ds arbitrary: fh)
  case Nil
  then show ?case by simp
next
  case (Cons d ds)
  have "fold (\<lambda>due s. snd (status_timeout s)) (d # ds) fh =
        fold (\<lambda>due s. snd (status_timeout s)) ds (snd (status_timeout fh))"
    by simp
  also have "\<dots> =
      (if ds = [] then snd (status_timeout fh)
       else (snd (status_timeout fh))\<lparr>formStatus :=
               map_option (\<lambda>st. st\<lparr>className := ''form-status''\<rparr>)
                 (formStatus (snd (status_timeout fh)))\<rparr>)"
    by (rule Cons.IH)
  also have "\<dots> = fh\<lparr>formStatus := map_option (\<lambda>st. st\<lparr>className := ''form-status''\<rparr>) (formStatus fh)\<rparr>"
    by (cases "formStatus fh") (simp_all add: status_timeout_snd)
  finally show ?case by simp
qed

lemma run_timeouts_simps:
  "form (run_timeouts t fh) = form fh"
  "fetches (run_timeouts t fh) = fetches fh"
  "clock (run_timeouts t fh) = max (clock fh) t"
  "timeouts (run_timeouts t fh) = filter (\<lambda>due. t < due) (timeouts fh)"
  "formStatus (run_timeouts t fh) =
     (if list_ex (\<lambda>due. due \<le> t) (timeouts fh)
      then map_option (\<lambda>st. st\<lparr>className := ''form-status''\<rparr>) (formStatus fh)
      else formStatus fh)"
  by (auto simp add: run_timeouts_def timeouts_fold list_ex_iff filter_empty_conv)

lemma after_submit_valid:
  assumes "form fh = Some f" and "validateForm f = Inr v" and "truthy v"
  shows "after_submit fh =
           fh\<lparr>fetches := fetches fh @
                [\<lparr>url = string_of_nullable (action f), http_method = ''POST'',
                  body = FormData f, headers = [(''Accept'', ''application/json'')]\<rparr>]\<rparr>"
  by (simp add: after_submit_def handleSubmit_valid [OF assms])

lemma fetch_settled_ok:
  assumes "form fh = Some f" and "formStatus fh = Some st"
  shows "fetch_settled (Response True) fh =
           (None, fh\<lparr>formStatus := Some \<lparr>textContent = success_message, className = ''form-status success''\<rparr>,
                     timeouts := timeouts fh @ [clock fh + 5000],
                     form := Some (reset f)\<rparr>)"
  using assms
  by (simp add: fetch_settled_def submit_then_def showStatus_def and_then_def)

lemma fetch_settled_failed:
  assumes "formStatus fh = Some st" and "outcome \<noteq> Response True"
  shows "fetch_settled outcome fh =
           (None, fh\<lparr>formStatus := Some \<lparr>textContent = failure_message, className = ''form-status error''\<rparr>,
                     timeouts := timeouts fh @ [clock fh + 5000]\<rparr>)"
proof (cases outcome)
  case (Response ok)
  with assms show ?thesis
    by (simp add: fetch_settled_def submit_then_def submit_catch_def showStatus_def)
next
  case NetworkFailure
  with assms show ?thesis
    by (simp add: fetch_settled_def submit_catch_def showStatus_def)
qed

lemma reset_cleared:
  "list_all (\<lambda>(n, fd). defaultValue fd = []) (controls f) \<Longrightarrow>
   list_all (\<lambda>(n, fd). field_value fd = []) (controls (reset f))"
  by (auto simp add: reset_def list_all_iff)

lemma after_response_state:
  assumes "form fh = Some f" and "formStatus fh = Some st"
    and "validateForm f = Inr v" and "truthy v"
  shows "fst (fetch_settled outcome (run_timeouts t (after_submit fh))) = None"
    and "fetches (after_response t outcome fh) = fetches fh @ [post_request f]"
    and "clock (after_response t outcome fh) = max (clock fh) t"
    and "timeouts (after_response t outcome fh) =
           filter (\<lambda>due. t < due) (timeouts fh) @ [max (clock fh) t + 5000]"
    and "formStatus (after_response t outcome fh) =
           Some \<lparr>textContent = shown_message outcome,
                 className = (if outcome = Response True then ''form-status success''
                              else ''form-status error'')\<rparr>"
    and "form (after_response t outcome fh) = Some (if outcome = Response True then reset f else f)"
proof -
  let ?W = "run_timeouts t (after_submit fh)"
  have A: "after_submit fh = fh\<lparr>fetches := fetches fh @ [post_request f]\<rparr>"
    unfolding post_request_def by (rule after_submit_valid [OF assms(1,3,4)])
  have Wf: "form ?W = Some f"
    by (simp add: run_timeouts_simps A assms)
  obtain st' where Ws: "formStatus ?W = Some st'"
    by (cases "list_ex (\<lambda>due. due \<le> t) (timeouts fh)") (simp_all add: run_timeouts_simps A assms)
  have S: "fetch_settled outcome ?W =
          (None,
           if outcome = Response True
           then ?W\<lparr>formStatus := Some \<lparr>textContent = success_message, className = ''form-status success''\<rparr>,
                   timeouts := timeouts ?W @ [clock ?W + 5000], form := Some (reset f)\<rparr>
           else ?W\<lparr>formStatus := Some \<lparr>textContent = failure_message, className = ''form-status error''\<rparr>,
                   timeouts := timeouts ?W @ [clock ?W + 5000]\<rparr>)"
  proof (cases "outcome = Response True")
    case True
    then show ?thesis using fetch_settled_ok [OF Wf Ws] by simp
  next
    case False
    then show ?thesis using fetch_settled_failed [OF Ws False] by simp
  qed
  have F: "fst (fetch_settled outcome ?W) = None"
    unfolding S by simp
  have R: "after_response t outcome fh =
          (if outcome = Response True
           then ?W\<lparr>formStatus := Some \<lparr>textContent = success_message, className = ''form-status success''\<rparr>,
                   timeouts := timeouts ?W @ [clock ?W + 5000], form := Some (reset f)\<rparr>
           else ?W\<lparr>formStatus := Some \<lparr>textContent = failure_message, className = ''form-status error''\<rparr>,
                   timeouts := timeouts ?W @ [clock ?W + 5000]\<rparr>)"
    unfolding after_response_def S by simp
  show "fst (fetch_settled outcome (run_timeouts t (after_submit fh))) = None"
    by (rule F)
  show "fetches (after_response t outcome fh) = fetches fh @ [post_request f]"
    unfolding R by (simp add: run_timeouts_simps A)
  show "clock (after_response t outcome fh) = max (clock fh) t"
    unfolding R by (simp add: run_timeouts_simps A)
  show "timeouts (after_response t outcome fh) =
           filter (\<lambda>due. t < due) (timeouts fh) @ [max (clock fh) t + 5000]"
    unfolding R by (simp add: run_timeouts_simps A)
  show "formStatus (after_response t outcome fh) =
           Some \<lparr>textContent = shown_message outcome,
                 className = (if outcome = Response True then ''form-status success''
                              else ''form-status error'')\<rparr>"
    unfolding R by (simp add: shown_message_def)
  show "form (after_response t outcome fh) = Some (if outcome = Response True then reset f else f)"
    unfolding R by (simp add: Wf)
qed

subsection \<open>C5: validation\<close>

text \<open>
  C5 as stated gives the email condition as: no whitespace, exactly one \<open>@\<close>, at
  least one full stop after the \<open>@\<close>. The pattern asks for more: \<open>a@b.\<close> meets
  the stated condition, with the other three fields filled in, and is rejected.
\<close>

theorem full_stop_at_end_rejected:
  "trim (utf16 ''A'') \<noteq> [] \<and> trim (utf16 ''s'') \<noteq> [] \<and> trim (utf16 ''m'') \<noteq> [] \<and>
   trim (utf16 ''a@b.'') = utf16 ''a@b.'' \<and>
   stated_email_shape (utf16 ''a@b.'') \<and>
   validateForm (contact_form ''A'' ''a@b.'' ''s'' ''m'') = Inr (Bool False) \<and>
   \<not> truthy (Bool False)"
  by (simp add: validateForm_def contact_form_def text_field_def field_named_def trim_def utf16_def
      isWhiteSpace_def js_and_def emailRegex_def at_sign_def full_stop_def Let_def
      stated_email_shape_def)

text \<open>
  C5, amended: for a form that has the four fields, \<open>validateForm\<close> raises nothing and
  returns a truthy value if and only if the four trimmed values are non-empty and the
  trimmed email is \<open>local@domain.tld\<close> with \<open>local\<close>, \<open>domain\<close> and \<open>tld\<close>
  non-empty and free of whitespace and \<open>@\<close> (so the \<open>@\<close> is not the first
  character, and some full stop after it is neither next to it nor the last character).
  The witness evaluates the three examples of the claim.
\<close>

theorem validateForm_valid_iff:
  assumes "field_named ''name'' f = Some n" and "field_named ''email'' f = Some e"
    and "field_named ''subject'' f = Some s" and "field_named ''message'' f = Some m"
  shows "\<exists>v. validateForm f = Inr v \<and>
           (truthy v \<longleftrightarrow>
              trim (field_value n) \<noteq> [] \<and> trim (field_value e) \<noteq> [] \<and>
              trim (field_value s) \<noteq> [] \<and> trim (field_value m) \<noteq> [] \<and>
              email_shape (trim (field_value e)))"
  using validateForm_value [OF assms] by (auto simp add: emailRegex_shape)

theorem validateForm_valid_iff_witness:
  "field_named ''name'' (contact_form ''A'' ''a@b.com'' ''s'' ''m'') = Some (text_field ''A'') \<and>
   field_named ''email'' (contact_form ''A'' ''a@b.com'' ''s'' ''m'') = Some (text_field ''a@b.com'') \<and>
   field_named ''subject'' (contact_form ''A'' ''a@b.com'' ''s'' ''m'') = Some (text_field ''s'') \<and>
   field_named ''message'' (contact_form ''A'' ''a@b.com'' ''s'' ''m'') = Some (text_field ''m'') \<and>
   validateForm (contact_form ''A'' ''a@b.com'' ''s'' ''m'') = Inr (Str (utf16 ''m'')) \<and>
   truthy (Str (utf16 ''m'')) \<and>
   email_shape (trim (field_value (text_field ''a@b.com''))) \<and>
   validateForm (contact_form '''' ''a@b'' ''s'' ''m'') = Inr (Str []) \<and>
   validateForm (contact_form ''A'' ''a@b'' ''s'' ''m'') = Inr (Bool False)"
proof -
  have a: "field_named ''name'' (contact_form ''A'' ''a@b.com'' ''s'' ''m'') = Some (text_field ''A'')"
    and b: "field_named ''email'' (contact_form ''A'' ''a@b.com'' ''s'' ''m'') = Some (text_field ''a@b.com'')"
    and c: "field_named ''subject'' (contact_form ''A'' ''a@b.com'' ''s'' ''m'') = Some (text_field ''s'')"
    and d: "field_named ''message'' (contact_form ''A'' ''a@b.com'' ''s'' ''m'') = Some (text_field ''m'')"
    by (simp_all add: contact_form_def field_named_def)
  have v: "validateForm (contact_form ''A'' ''a@b.com'' ''s'' ''m'') = Inr (Str (utf16 ''m''))"
    and w: "validateForm (contact_form '''' ''a@b'' ''s'' ''m'') = Inr (Str [])"
    and x: "validateForm (contact_form ''A'' ''a@b'' ''s'' ''m'') = Inr (Bool False)"
    by (simp_all add: validateForm_def contact_form_def text_field_def field_named_def trim_def
        utf16_def isWhiteSpace_def js_and_def emailRegex_def at_sign_def full_stop_def Let_def)
  have t: "truthy (Str (utf16 ''m''))"
    by (simp add: utf16_def)
  from validateForm_valid_iff [OF a b c d] v t
  have "email_shape (trim (field_value (text_field ''a@b.com'')))"
    by simp
  with a b c d v w x t show ?thesis by simp
qed

subsection \<open>C3: the submit lifecycle\<close>

text \<open>
  C3 as stated ends with: the status element reverts to neutral styling and empty content
  5000 ms after the message was shown. The timeout callback assigns \<open>className\<close>
  only; the text of the message stays. C3 also says that a successful response clears
  every field; \<open>form.reset()\<close> restores the default values, so a field the markup
  prefills returns to that text.
\<close>

theorem status_text_stays_after_timeout:
  "validateForm prefilled_form = Inr (Str (utf16 ''m'')) \<and>
   fst (fetch_settled (Response True) (run_timeouts 0 (after_submit (contact_page prefilled_form)))) = None \<and>
   formStatus (run_timeouts 5000 (after_response 0 (Response True) (contact_page prefilled_form))) =
     Some \<lparr>textContent = success_message, className = ''form-status''\<rparr> \<and>
   success_message \<noteq> [] \<and>
   map_option (field_named ''subject'') (form (after_response 0 (Response True) (contact_page prefilled_form))) =
     Some (Some \<lparr>field_value = utf16 ''Hello'', defaultValue = utf16 ''Hello''\<rparr>) \<and>
   utf16 ''Hello'' \<noteq> []"
proof -
  have v: "validateForm prefilled_form = Inr (Str (utf16 ''m''))"
    by (simp add: validateForm_def prefilled_form_def text_field_def field_named_def trim_def
        utf16_def isWhiteSpace_def js_and_def emailRegex_def at_sign_def full_stop_def Let_def)
  show ?thesis
    unfolding v
    by (simp add: after_response_def after_submit_def handleSubmit_def submitForm_def
        run_timeouts_def fetch_settled_def submit_then_def showStatus_def status_timeout_def
        and_then_def contact_page_def v success_message_def reset_def field_named_def Let_def)
      (simp add: prefilled_form_def text_field_def utf16_def)
qed

text \<open>
  C3, amended: for a submit event on a form that passes validation, with the status
  element present, the handler raises nothing and issues exactly one request, a POST to
  the form's action with the form's data; the form is unchanged until the response. On
  a response with \<open>ok\<close> the success message is shown and every field is reset to its
  default value (empty when the defaults are empty); on any other outcome the failure
  message is shown and the form keeps its values. In both cases, once 5000 ms have
  passed since the message was shown the class of the status element is the neutral
  \<open>form-status\<close> while its text is still the message; and with no earlier timeout
  pending the status is unchanged before that.
\<close>

theorem submit_lifecycle:
  assumes "form fh = Some f" and "formStatus fh = Some st"
    and "validateForm f = Inr v" and "truthy v"
  shows "fst (handleSubmit \<lparr>submit_prevented = False\<rparr> fh) = None \<and>
         fetches (after_submit fh) = fetches fh @ [post_request f] \<and>
         form (after_submit fh) = Some f \<and>
         fst (fetch_settled outcome (run_timeouts t (after_submit fh))) = None \<and>
         fetches (after_response t outcome fh) = fetches fh @ [post_request f] \<and>
         formStatus (after_response t outcome fh) =
           Some \<lparr>textContent = shown_message outcome,
                 className = (if outcome = Response True then ''form-status success''
                              else ''form-status error'')\<rparr> \<and>
         form (after_response t outcome fh) = Some (if outcome = Response True then reset f else f) \<and>
         (list_all (\<lambda>(n, fd). defaultValue fd = []) (controls f) \<longrightarrow>
            list_all (\<lambda>(n, fd). field_value fd = []) (controls (reset f))) \<and>
         (clock (after_response t outcome fh) + 5000 \<le> t' \<longrightarrow>
            formStatus (run_timeouts t' (after_response t outcome fh)) =
              Some \<lparr>textContent = shown_message outcome, className = ''form-status''\<rparr>) \<and>
         (timeouts fh = [] \<and> t' < clock (after_response t outcome fh) + 5000 \<longrightarrow>
            formStatus (run_timeouts t' (after_response t outcome fh)) =
              formStatus (after_response t outcome fh))"
proof -
  note R = after_response_state [OF assms, where outcome = outcome and t = t]
  have 1: "fst (handleSubmit \<lparr>submit_prevented = False\<rparr> fh) = None"
    by (simp add: handleSubmit_valid [OF assms(1,3,4)])
  have 2: "fetches (after_submit fh) = fetches fh @ [post_request f]"
    and 3: "form (after_submit fh) = Some f"
    by (simp_all add: after_submit_valid [OF assms(1,3,4)] post_request_def assms(1))
  have 4: "formStatus (run_timeouts t' (after_response t outcome fh)) =
            Some \<lparr>textContent = shown_message outcome, className = ''form-status''\<rparr>"
    if "clock (after_response t outcome fh) + 5000 \<le> t'"
    using that by (simp add: run_timeouts_simps R)
  have 5: "formStatus (run_timeouts t' (after_response t outcome fh)) =
            formStatus (after_response t outcome fh)"
    if "timeouts fh = [] \<and> t' < clock (after_response t outcome fh) + 5000"
    using that by (simp add: run_timeouts_simps R(3,4))
  show ?thesis
    using 1 2 3 4 5 R(1,2,5,6) reset_cleared [of f] by simp
qed

theorem submit_lifecycle_witness:
  "form (contact_page (contact_form ''A'' ''a@b.com'' ''s'' ''m'')) =
     Some (contact_form ''A'' ''a@b.com'' ''s'' ''m'') \<and>
   formStatus (contact_page (contact_form ''A'' ''a@b.com'' ''s'' ''m'')) =
     Some \<lparr>textContent = '''', className = ''form-status''\<rparr> \<and>
   validateForm (contact_form ''A'' ''a@b.com'' ''s'' ''m'') = Inr (Str (utf16 ''m'')) \<and>
   truthy (Str (utf16 ''m'')) \<and>
   fetches (after_submit (contact_page (contact_form ''A'' ''a@b.com'' ''s'' ''m''))) =
     [post_request (contact_form ''A'' ''a@b.com'' ''s'' ''m'')] \<and>
   formStatus (after_response 800 (Response True) (contact_page (contact_form ''A'' ''a@b.com'' ''s'' ''m''))) =
     Some \<lparr>textContent = success_message, className = ''form-status success''\<rparr> \<and>
   form (after_response 800 (Response True) (contact_page (contact_form ''A'' ''a@b.com'' ''s'' ''m''))) =
     Some (reset (contact_form ''A'' ''a@b.com'' ''s'' ''m'')) \<and>
   formStatus (run_timeouts 5800
       (after_response 800 (Response True) (contact_page (contact_form ''A'' ''a@b.com'' ''s'' ''m'')))) =
     Some \<lparr>textContent = success_message, className = ''form-status''\<rparr> \<and>
   formStatus (after_response 800 NetworkFailure (contact_page (contact_form ''A'' ''a@b.com'' ''s'' ''m''))) =
     Some \<lparr>textContent = failure_message, className = ''form-status error''\<rparr> \<and>
   form (after_response 800 NetworkFailure (contact_page (contact_form ''A'' ''a@b.com'' ''s'' ''m''))) =
     Some (contact_form ''A'' ''a@b.com'' ''s'' ''m'') \<and>
   formStatus (run_timeouts 5800
       (after_response 800 NetworkFailure (contact_page (contact_form ''A'' ''a@b.com'' ''s'' ''m'')))) =
     Some \<lparr>textContent = failure_message, className = ''form-status''\<rparr>"
proof -
  let ?F = "contact_form ''A'' ''a@b.com'' ''s'' ''m''"
  have a: "form (contact_page ?F) = Some ?F"
    and b: "formStatus (contact_page ?F) = Some \<lparr>textContent = '''', className = ''form-status''\<rparr>"
    and k: "clock (contact_page ?F) = 0"
    and p: "fetches (contact_page ?F) = []"
    by (simp_all add: contact_page_def)
  have c: "validateForm ?F = Inr (Str (utf16 ''m''))"
    by (simp add: validateForm_def contact_form_def text_field_def field_named_def trim_def
        utf16_def isWhiteSpace_def js_and_def emailRegex_def at_sign_def full_stop_def Let_def)
  have d: "truthy (Str (utf16 ''m''))"
    by (simp add: utf16_def)
  have t: "clock (after_response 800 outcome (contact_page ?F)) + 5000 \<le> 5800" for outcome
    by (simp add: after_response_state(3) [OF a b c d] k)
  show ?thesis
    using submit_lifecycle [OF a b c d, where outcome = "Response True" and t = 800 and t' = 5800]
      submit_lifecycle [OF a b c d, where outcome = NetworkFailure and t = 800 and t' = 5800]
      a b c d t p
    by (simp add: shown_message_def)
qed

subsection \<open>C10: validation does not write to the form\<close>

text \<open>
  C10: handling a submit event leaves the form as it was (validation only reads the
  fields); validation depends on the trimmed values only, since the form with every value
  trimmed validates the same; and when validation succeeds the body of the request
  issued holds the values of the fields as they are, untrimmed.
\<close>

theorem validation_reads_only:
  assumes "form fh = Some f"
  shows "form (after_submit fh) = Some f \<and>
         validateForm (trimmed f) = validateForm f \<and>
         (\<forall>v. validateForm f = Inr v \<and> truthy v \<longrightarrow>
            fetches (after_submit fh) = fetches fh @ [post_request f]) \<and>
         body (post_request f) = map (\<lambda>(n, fd). (n, field_value fd)) (controls f)"
proof -
  have "form (after_submit fh) = Some f"
    using assms by (simp add: after_submit_def handleSubmit_form)
  moreover have "fetches (after_submit fh) = fetches fh @ [post_request f]"
    if "validateForm f = Inr v \<and> truthy v" for v
    using that after_submit_valid [OF assms, of v] by (simp add: post_request_def)
  moreover have "body (post_request f) = map (\<lambda>(n, fd). (n, field_value fd)) (controls f)"
    by (simp add: post_request_def FormData_def)
  ultimately show ?thesis
    using validateForm_trimmed [of f] by blast
qed

theorem validation_reads_only_witness:
  "form (contact_page (contact_form '' A '' '' a@b.com'' ''s'' ''m '')) =
     Some (contact_form '' A '' '' a@b.com'' ''s'' ''m '') \<and>
   validateForm (contact_form '' A '' '' a@b.com'' ''s'' ''m '') = Inr (Str (utf16 ''m'')) \<and>
   truthy (Str (utf16 ''m'')) \<and>
   form (after_submit (contact_page (contact_form '' A '' '' a@b.com'' ''s'' ''m ''))) =
     Some (contact_form '' A '' '' a@b.com'' ''s'' ''m '') \<and>
   map body (fetches (after_submit (contact_page (contact_form '' A '' '' a@b.com'' ''s'' ''m '')))) =
     [[(''name'', utf16 '' A ''), (''email'', utf16 '' a@b.com''),
       (''subject'', utf16 ''s''), (''message'', utf16 ''m '')]]"
proof -
  let ?F = "contact_form '' A '' '' a@b.com'' ''s'' ''m ''"
  have a: "form (contact_page ?F) = Some ?F"
    and p: "fetches (contact_page ?F) = []"
    by (simp_all add: contact_page_def)
  have c: "validateForm ?F = Inr (Str (utf16 ''m''))"
    by (simp add: validateForm_def contact_form_def text_field_def field_named_def trim_def
        utf16_def isWhiteSpace_def js_and_def emailRegex_def at_sign_def full_stop_def Let_def)
  have d: "truthy (Str (utf16 ''m''))"
    by (simp add: utf16_def)
  have e: "map (\<lambda>(n, fd). (n, field_value fd)) (controls ?F) =
        [(''name'', utf16 '' A ''), (''email'', utf16 '' a@b.com''),
         (''subject'', utf16 ''s''), (''message'', utf16 ''m '')]"
    by (simp add: contact_form_def text_field_def)
  show ?thesis
    using validation_reads_only [OF a] a c d p e by simp
qed

section \<open>Properties of page initialisation\<close>

lemma ThemeManager_constructor_throws:
  "themeToggle w = None \<Longrightarrow> fst (ThemeManager_constructor w) = Some TypeError"
  by (simp add: theme_defs)

lemma NavigationManager_constructor_completes:
  "fst (NavigationManager_constructor w) = None \<longleftrightarrow> mobileToggle w \<noteq> None"
  by (auto simp add: NavigationManager_constructor_def NavigationManager_init_def Let_def
      split: option.splits)

lemma FormHandler_constructor_completes: "fst (FormHandler_constructor w) = None"
  by (simp add: FormHandler_constructor_def FormHandler_init_def split: option.splits)

text \<open>
  Initialisation completes exactly when the two toggle buttons exist; the header, the
  menu, the skills section, the form and the status element may be missing.
\<close>

lemma DOMContentLoaded_completes_iff:
  "fst (DOMContentLoaded p) = None \<longleftrightarrow>
     themeToggle (theme_part p) \<noteq> None \<and> mobileToggle (nav_part p) \<noteq> None"
proof (cases "themeToggle (theme_part p)")
  case None
  then show ?thesis
    using ThemeManager_constructor_throws [of "theme_part p"]
    by (cases "ThemeManager_constructor (theme_part p)") (auto simp add: DOMContentLoaded_def)
next
  case (Some b)
  obtain tm where tm: "ThemeManager_constructor (theme_part p) = (None, tm)"
    using constructor_ok(1) [OF Some] by (cases "ThemeManager_constructor (theme_part p)") auto
  obtain r nm where nm: "NavigationManager_constructor (nav_part p) = (r, nm)"
    by (cases "NavigationManager_constructor (nav_part p)") auto
  obtain fh where fh: "FormHandler_constructor (form_part p) = (None, fh)"
    using FormHandler_constructor_completes [of "form_part p"]
    by (cases "FormHandler_constructor (form_part p)") auto
  have "r = None \<longleftrightarrow> mobileToggle (nav_part p) \<noteq> None"
    using NavigationManager_constructor_completes [of "nav_part p"] nm by simp
  then show ?thesis
    using Some by (cases r) (auto simp add: DOMContentLoaded_def tm nm fh Let_def)
qed

subsection \<open>C4: missing elements\<close>

text \<open>
  C4 says that no missing element makes initialisation raise. Without \<open>#theme-toggle\<close>
  the first constructor raises \<open>TypeError\<close> (\<open>updateThemeToggle\<close> calls
  \<open>setAttribute\<close> on null) and the listener ends there: no navigation listener is
  attached, nothing is observed, the form gets no submit listener, nothing is logged.
  Without \<open>#mobile-toggle\<close> the second constructor raises and the five after it never
  run. The page that lacks the header, the menu, the skills section, the form and the
  status element initialises to the end, as the claim says.
\<close>

theorem missing_toggle_aborts_initialisation:
  "fst (DOMContentLoaded without_theme_toggle) = Some TypeError \<and>
   window_listeners (nav_part (snd (DOMContentLoaded without_theme_toggle))) = [] \<and>
   map link_listeners (navLinks (nav_part (snd (DOMContentLoaded without_theme_toggle)))) = [[], [], []] \<and>
   skills_observed (skill_part (snd (DOMContentLoaded without_theme_toggle))) = False \<and>
   map observed (sections (section_part (snd (DOMContentLoaded without_theme_toggle)))) = [False] \<and>
   map_option submit_listeners (form (form_part (snd (DOMContentLoaded without_theme_toggle)))) = Some [] \<and>
   console (snd (DOMContentLoaded without_theme_toggle)) = [] \<and>
   fst (DOMContentLoaded without_mobile_toggle) = Some TypeError \<and>
   window_listeners (nav_part (snd (DOMContentLoaded without_mobile_toggle))) = [] \<and>
   skills_observed (skill_part (snd (DOMContentLoaded without_mobile_toggle))) = False \<and>
   map observed (sections (section_part (snd (DOMContentLoaded without_mobile_toggle)))) = [False] \<and>
   map_option submit_listeners (form (form_part (snd (DOMContentLoaded without_mobile_toggle)))) = Some [] \<and>
   console (snd (DOMContentLoaded without_mobile_toggle)) = [] \<and>
   fst (DOMContentLoaded without_optional_elements) = None \<and>
   console (snd (DOMContentLoaded without_optional_elements)) = [''Portfolio loaded successfully!''] \<and>
   fst (DOMContentLoaded complete_page) = None \<and>
   skills_observed (skill_part (snd (DOMContentLoaded complete_page))) = True \<and>
   map_option submit_listeners (form (form_part (snd (DOMContentLoaded complete_page)))) = Some [HandleSubmit]"
  by (simp add: DOMContentLoaded_def without_theme_toggle_def without_mobile_toggle_def
      without_optional_elements_def complete_page_def
      first_visit_light_os_def plain_button_def overlapping_page_def plain_link_def two_bars_def
      one_section_def contact_page_def contact_form_def
      theme_defs or_else_def
      NavigationManager_constructor_def NavigationManager_init_def link_addEventListener_def
      SkillAnimator_constructor_def SkillAnimator_init_def
      SectionAnimator_constructor_def SectionAnimator_init_def
      FormHandler_constructor_def FormHandler_init_def
      SmoothScroll_constructor_def SmoothScroll_init_def
      LazyLoader_constructor_def LazyLoader_init_def Let_def)

end
